theory Spec2Isabelle
  imports Main "HOL-Library.Sublist" "HOL-Library.Multiset"
begin

section \<open>Data model\<close>

text \<open>
  The analytics service of the auction API (\<^verbatim>\<open>analytics.service.ts\<close>) and its
  repository (\<^verbatim>\<open>analytics.repository.ts\<close>), embedded as pure functions over an explicit
  state: the two in-memory caches of the service and the two MongoDB collections.

  A JavaScript \<^verbatim>\<open>Date\<close> holds a time value in milliseconds or NaN ("Invalid Date").
\<close>

datatype date = Instant int | InvalidDate

datatype TrackingSources = SEARCH_RESULTS | BROWSE | RECOMMENDATIONS | DIRECT | SEARCH

text \<open>
  \<^verbatim>\<open>TrackImpressionDto\<close> and \<^verbatim>\<open>TrackClickDto\<close> have the same fields, and the stored
  events have them too, but for the type of \<^verbatim>\<open>timestamp\<close>: an optional string in a
  DTO, a \<^verbatim>\<open>Date\<close> in an event. One record with the timestamp's type as a parameter
  serves all four.
\<close>

record 'ts tracking =
  item_id :: string
  session_id :: string
  user_id :: "string option"
  source :: TrackingSources
  search_query :: "string option"
  position_in_results :: "int option"
  timestamp :: 'ts

type_synonym TrackImpressionDto = "string option tracking"
type_synonym TrackClickDto = "string option tracking"
type_synonym ImpressionEvent = "date tracking"
type_synonym ClickEvent = "date tracking"

record AnalyticsConfig =
  RATE_LIMIT_WINDOW :: int
  IMPRESSION_COOLDOWN :: int
  CLICK_COOLDOWN :: int
  CLEANUP_INTERVAL :: int
  DATA_RETENTION_DAYS :: int

text \<open>The defaults the constructor passes to \<^verbatim>\<open>configService.get\<close>.\<close>

definition default_config :: AnalyticsConfig where
  "default_config =
     \<lparr>RATE_LIMIT_WINDOW = 60000, IMPRESSION_COOLDOWN = 30000, CLICK_COOLDOWN = 5000,
      CLEANUP_INTERVAL = 300000, DATA_RETENTION_DAYS = 90\<rparr>"

text \<open>
  The state: \<^verbatim>\<open>impressionCache\<close> and \<^verbatim>\<open>clickCache\<close> (a \<^verbatim>\<open>Map<string, number>\<close>
  each), and the collections behind \<^verbatim>\<open>impressionModel\<close> and \<^verbatim>\<open>clickModel\<close>, in
  insertion order.
\<close>

record state =
  impressionCache :: "string \<Rightarrow> int option"
  clickCache :: "string \<Rightarrow> int option"
  impressionModel :: "ImpressionEvent list"
  clickModel :: "ClickEvent list"

definition empty_state :: state where
  "empty_state =
     \<lparr>impressionCache = (\<lambda>k. None), clickCache = (\<lambda>k. None), impressionModel = [], clickModel = []\<rparr>"

text \<open>
  What a call can end with instead of a result: the two \<^verbatim>\<open>BadRequestException\<close>s of
  the service (\<open>TooRecent\<close>: "... tracked too recently for this session and item",
  \<open>AlreadyTracked\<close>: "... already tracked for this session and item"), and the errors
  of the store's library, which the service lets through: a document that fails the
  schema's validation (\<open>ValidationError\<close>), a query value that cannot be cast to the
  field's type (\<open>CastError\<close>), and the store failing (\<open>StoreFailure\<close>).
\<close>

datatype error = TooRecent | AlreadyTracked | ValidationError | CastError | StoreFailure

section \<open>Repository\<close>

text \<open>
  The store is taken to answer queries and deletions; an insert may fail.
  \<^verbatim>\<open>timestamp: { $gte: startTime }\<close> and \<^verbatim>\<open>{ $lt: cutoffDate }\<close> compare a
  stored date with a valid one.
\<close>

fun date_gte :: "date \<Rightarrow> int \<Rightarrow> bool" where
  "date_gte (Instant t) s = (s \<le> t)"
| "date_gte InvalidDate s = False"

fun date_lte :: "date \<Rightarrow> int \<Rightarrow> bool" where
  "date_lte (Instant t) s = (t \<le> s)"
| "date_lte InvalidDate s = False"

fun date_lt :: "date \<Rightarrow> int \<Rightarrow> bool" where
  "date_lt (Instant t) s = (t < s)"
| "date_lt InvalidDate s = False"

text \<open>
  The two schemas (\<^verbatim>\<open>ImpressionEvent\<close>, \<^verbatim>\<open>ClickEvent\<close>) declare \<^verbatim>\<open>item_id\<close>,
  \<^verbatim>\<open>session_id\<close>, \<^verbatim>\<open>source\<close> and \<^verbatim>\<open>timestamp\<close> with \<^verbatim>\<open>required: true\<close>, the
  timestamp as a \<^verbatim>\<open>Date\<close>. A document is validated before it is sent to the store: a
  required string must not be empty, and an Invalid Date is not a \<^verbatim>\<open>Date\<close>. The
  source is of the enum by its type.
\<close>

definition validates :: "date tracking \<Rightarrow> bool" where
  "validates doc = (item_id doc \<noteq> [] \<and> session_id doc \<noteq> [] \<and> timestamp doc \<noteq> InvalidDate)"

text \<open>
  \<^verbatim>\<open>createImpression\<close>: \<^verbatim>\<open>new this.impressionModel(data).save()\<close>. A document that
  does not validate raises and is not sent. Whether the store then takes a valid document
  is the input \<open>ok\<close>; a failed insert raises and stores nothing. The impression schema
  has no \<^verbatim>\<open>position_in_results\<close>, so the document is built without it.
\<close>

definition createImpression ::
  "bool \<Rightarrow> ImpressionEvent \<Rightarrow> state \<Rightarrow> (error + ImpressionEvent) \<times> state" where
  "createImpression ok impressionData st =
     (let impression = impressionData\<lparr>position_in_results := None\<rparr>
      in if \<not> validates impression then (Inl ValidationError, st)
         else if ok then (Inr impression, st\<lparr>impressionModel := impressionModel st @ [impression]\<rparr>)
         else (Inl StoreFailure, st))"

definition createClick ::
  "bool \<Rightarrow> ClickEvent \<Rightarrow> state \<Rightarrow> (error + ClickEvent) \<times> state" where
  "createClick ok clickData st =
     (if \<not> validates clickData then (Inl ValidationError, st)
      else if ok then (Inr clickData, st\<lparr>clickModel := clickModel st @ [clickData]\<rparr>)
      else (Inl StoreFailure, st))"

text \<open>
  \<^verbatim>\<open>insertMany\<close>: every document is validated first, and with one that does not
  validate nothing is sent; else the documents are stored in the order given.
\<close>

definition createImpressionsBatch ::
  "bool \<Rightarrow> ImpressionEvent list \<Rightarrow> state \<Rightarrow> (error + ImpressionEvent list) \<times> state" where
  "createImpressionsBatch ok imps st =
     (let docs = map (\<lambda>d. d\<lparr>position_in_results := None\<rparr>) imps
      in if \<not> list_all validates docs then (Inl ValidationError, st)
         else if ok then (Inr docs, st\<lparr>impressionModel := impressionModel st @ docs\<rparr>)
         else (Inl StoreFailure, st))"

definition createClicksBatch ::
  "bool \<Rightarrow> ClickEvent list \<Rightarrow> state \<Rightarrow> (error + ClickEvent list) \<times> state" where
  "createClicksBatch ok cs st =
     (if \<not> list_all validates cs then (Inl ValidationError, st)
      else if ok then (Inr cs, st\<lparr>clickModel := clickModel st @ cs\<rparr>)
      else (Inl StoreFailure, st))"

text \<open>\<^verbatim>\<open>findOne({ session_id, item_id, timestamp: { $gte: startTime } })\<close>.\<close>

definition findImpressionBySessionAndItem ::
  "state \<Rightarrow> string \<Rightarrow> string \<Rightarrow> int \<Rightarrow> ImpressionEvent option" where
  "findImpressionBySessionAndItem st sessionId itemId startTime =
     find (\<lambda>e. session_id e = sessionId \<and> item_id e = itemId \<and> date_gte (timestamp e) startTime)
       (impressionModel st)"

definition findClickBySessionAndItem ::
  "state \<Rightarrow> string \<Rightarrow> string \<Rightarrow> int \<Rightarrow> ClickEvent option" where
  "findClickBySessionAndItem st sessionId itemId startTime =
     find (\<lambda>e. session_id e = sessionId \<and> item_id e = itemId \<and> date_gte (timestamp e) startTime)
       (clickModel st)"

text \<open>\<^verbatim>\<open>find({ $or: pairs.map(pair => ({ session_id, item_id, timestamp: { $gte } })) })\<close>.\<close>

definition findExistingImpressions ::
  "state \<Rightarrow> (string \<times> string) list \<Rightarrow> int \<Rightarrow> ImpressionEvent list" where
  "findExistingImpressions st sessionItemPairs startTime =
     filter (\<lambda>e. list_ex (\<lambda>pair. session_id e = fst pair \<and> item_id e = snd pair \<and>
                                date_gte (timestamp e) startTime) sessionItemPairs)
       (impressionModel st)"

definition findExistingClicks ::
  "state \<Rightarrow> (string \<times> string) list \<Rightarrow> int \<Rightarrow> ClickEvent list" where
  "findExistingClicks st sessionItemPairs startTime =
     filter (\<lambda>e. list_ex (\<lambda>pair. session_id e = fst pair \<and> item_id e = snd pair \<and>
                                date_gte (timestamp e) startTime) sessionItemPairs)
       (clickModel st)"

text \<open>
  \<^verbatim>\<open>deleteMany({ timestamp: { $lt: cutoffDate } })\<close>, with its \<^verbatim>\<open>deletedCount\<close>. An
  Invalid Date as the cutoff cannot be cast for the query: the call raises and deletes
  nothing.
\<close>

definition deleteOldImpressions :: "date \<Rightarrow> state \<Rightarrow> (error + nat) \<times> state" where
  "deleteOldImpressions cutoffDate st =
     (case cutoffDate of
        InvalidDate \<Rightarrow> (Inl CastError, st)
      | Instant cutoff \<Rightarrow>
          (Inr (length (filter (\<lambda>e. date_lt (timestamp e) cutoff) (impressionModel st))),
           st\<lparr>impressionModel :=
                filter (\<lambda>e. \<not> date_lt (timestamp e) cutoff) (impressionModel st)\<rparr>))"

definition deleteOldClicks :: "date \<Rightarrow> state \<Rightarrow> (error + nat) \<times> state" where
  "deleteOldClicks cutoffDate st =
     (case cutoffDate of
        InvalidDate \<Rightarrow> (Inl CastError, st)
      | Instant cutoff \<Rightarrow>
          (Inr (length (filter (\<lambda>e. date_lt (timestamp e) cutoff) (clickModel st))),
           st\<lparr>clickModel := filter (\<lambda>e. \<not> date_lt (timestamp e) cutoff) (clickModel st)\<rparr>))"

section \<open>Single submission\<close>

text \<open>The cache key, \<^verbatim>\<open>`${dto.session_id}_${dto.item_id}`\<close>.\<close>

definition cacheKey :: "'ts tracking \<Rightarrow> string" where
  "cacheKey dto = session_id dto @ ''_'' @ item_id dto"

text \<open>
  \<^verbatim>\<open>{ ...dto, timestamp: dto.timestamp ? new Date(dto.timestamp) : new Date() }\<close>.
  The empty string is falsy, as a missing timestamp is. \<open>parse\<close> is the runtime's
  \<^verbatim>\<open>new Date(string)\<close>; \<open>wall\<close> is the clock as \<^verbatim>\<open>new Date()\<close> reads it, after the
  store's answer, where \<open>now\<close> is \<^verbatim>\<open>Date.now()\<close> at the start of the call.
\<close>

definition eventData :: "(string \<Rightarrow> date) \<Rightarrow> int \<Rightarrow> string option tracking \<Rightarrow> date tracking" where
  "eventData parse wall dto =
     \<lparr>item_id = item_id dto, session_id = session_id dto, user_id = user_id dto,
      source = source dto, search_query = search_query dto,
      position_in_results = position_in_results dto,
      timestamp = (case timestamp dto of
                     None \<Rightarrow> Instant wall
                   | Some s \<Rightarrow> if s = [] then Instant wall else parse s)\<rparr>"

text \<open>
  \<^verbatim>\<open>trackImpression\<close> is an \<^verbatim>\<open>async\<close> function: it runs up to its first \<^verbatim>\<open>await\<close>
  (the cache check, then the query is sent), and resumes with the query's answer (the
  duplicate check, the cache update, the insert). The two parts are \<open>trackImpression_check\<close>
  and \<open>trackImpression_resume\<close>; a call that nothing interleaves with is their composition
  around the read.
\<close>

definition trackImpression_check ::
  "AnalyticsConfig \<Rightarrow> int \<Rightarrow> TrackImpressionDto \<Rightarrow> state \<Rightarrow> error option" where
  "trackImpression_check config now dto st =
     (case impressionCache st (cacheKey dto) of
        None \<Rightarrow> None
      | Some lastImpression \<Rightarrow>
          if now - lastImpression < IMPRESSION_COOLDOWN config then Some TooRecent else None)"

definition trackImpression_resume ::
  "(string \<Rightarrow> date) \<Rightarrow> int \<Rightarrow> int \<Rightarrow> bool \<Rightarrow> TrackImpressionDto \<Rightarrow>
   ImpressionEvent option \<Rightarrow> state \<Rightarrow> (error + ImpressionEvent) \<times> state" where
  "trackImpression_resume parse now wall ok dto existingImpression st =
     (case existingImpression of
        Some e \<Rightarrow> (Inl AlreadyTracked, st)
      | None \<Rightarrow>
          let impressionData = eventData parse wall dto;
              st1 = st\<lparr>impressionCache := (impressionCache st)(cacheKey dto \<mapsto> now)\<rparr>
          in createImpression ok impressionData st1)"

definition trackImpression ::
  "AnalyticsConfig \<Rightarrow> (string \<Rightarrow> date) \<Rightarrow> int \<Rightarrow> int \<Rightarrow> bool \<Rightarrow> TrackImpressionDto \<Rightarrow>
   state \<Rightarrow> (error + ImpressionEvent) \<times> state" where
  "trackImpression config parse now wall ok dto st =
     (case trackImpression_check config now dto st of
        Some err \<Rightarrow> (Inl err, st)
      | None \<Rightarrow>
          let startTime = now - RATE_LIMIT_WINDOW config;
              existingImpression =
                findImpressionBySessionAndItem st (session_id dto) (item_id dto) startTime
          in trackImpression_resume parse now wall ok dto existingImpression st)"

definition trackClick_check ::
  "AnalyticsConfig \<Rightarrow> int \<Rightarrow> TrackClickDto \<Rightarrow> state \<Rightarrow> error option" where
  "trackClick_check config now dto st =
     (case clickCache st (cacheKey dto) of
        None \<Rightarrow> None
      | Some lastClick \<Rightarrow>
          if now - lastClick < CLICK_COOLDOWN config then Some TooRecent else None)"

definition trackClick_resume ::
  "(string \<Rightarrow> date) \<Rightarrow> int \<Rightarrow> int \<Rightarrow> bool \<Rightarrow> TrackClickDto \<Rightarrow>
   ClickEvent option \<Rightarrow> state \<Rightarrow> (error + ClickEvent) \<times> state" where
  "trackClick_resume parse now wall ok dto existingClick st =
     (case existingClick of
        Some e \<Rightarrow> (Inl AlreadyTracked, st)
      | None \<Rightarrow>
          let clickData = eventData parse wall dto;
              st1 = st\<lparr>clickCache := (clickCache st)(cacheKey dto \<mapsto> now)\<rparr>
          in createClick ok clickData st1)"

definition trackClick ::
  "AnalyticsConfig \<Rightarrow> (string \<Rightarrow> date) \<Rightarrow> int \<Rightarrow> int \<Rightarrow> bool \<Rightarrow> TrackClickDto \<Rightarrow>
   state \<Rightarrow> (error + ClickEvent) \<times> state" where
  "trackClick config parse now wall ok dto st =
     (case trackClick_check config now dto st of
        Some err \<Rightarrow> (Inl err, st)
      | None \<Rightarrow>
          let startTime = now - RATE_LIMIT_WINDOW config;
              existingClick =
                findClickBySessionAndItem st (session_id dto) (item_id dto) startTime
          in trackClick_resume parse now wall ok dto existingClick st)"

text \<open>\<^verbatim>\<open>cleanCache\<close>: entries older than the rate-limit window are deleted.\<close>

definition cleanCache :: "AnalyticsConfig \<Rightarrow> int \<Rightarrow> (string \<Rightarrow> int option) \<Rightarrow> (string \<Rightarrow> int option)" where
  "cleanCache config now cache =
     (let cutoff = now - RATE_LIMIT_WINDOW config
      in (\<lambda>key. case cache key of
                   None \<Rightarrow> None
                 | Some ts \<Rightarrow> if ts < cutoff then None else Some ts))"

text \<open>
  The timer of \<^verbatim>\<open>onModuleInit\<close> cleans both caches; each \<^verbatim>\<open>cleanCache\<close> reads the
  clock for itself.
\<close>

definition cleanupTick :: "AnalyticsConfig \<Rightarrow> int \<Rightarrow> int \<Rightarrow> state \<Rightarrow> state" where
  "cleanupTick config now now' st =
     st\<lparr>impressionCache := cleanCache config now (impressionCache st),
        clickCache := cleanCache config now' (clickCache st)\<rparr>"

section \<open>Batch submission\<close>

text \<open>
  The loop of \<^verbatim>\<open>trackImpressionsBatch\<close> over the input, with \<^verbatim>\<open>validImpressions\<close> as
  its result and the cache threaded through. A skipped input (\<^verbatim>\<open>continue\<close>) leaves
  both as they are. The loop has no \<^verbatim>\<open>await\<close>; \<open>wall\<close> is the clock its
  \<^verbatim>\<open>new Date()\<close> reads.
\<close>

fun impressionsLoop ::
  "AnalyticsConfig \<Rightarrow> (string \<Rightarrow> date) \<Rightarrow> int \<Rightarrow> int \<Rightarrow> string set \<Rightarrow> TrackImpressionDto list \<Rightarrow>
   (string \<Rightarrow> int option) \<Rightarrow> ImpressionEvent list \<times> (string \<Rightarrow> int option)" where
  "impressionsLoop config parse now wall existingSet [] cache = ([], cache)"
| "impressionsLoop config parse now wall existingSet (impression # rest) cache =
     (if (case cache (cacheKey impression) of
            None \<Rightarrow> False
          | Some lastImpression \<Rightarrow> now - lastImpression < IMPRESSION_COOLDOWN config)
      then impressionsLoop config parse now wall existingSet rest cache
      else if cacheKey impression \<in> existingSet
      then impressionsLoop config parse now wall existingSet rest cache
      else (case impressionsLoop config parse now wall existingSet rest
                   (cache(cacheKey impression \<mapsto> now)) of
              (validImpressions, cache') \<Rightarrow>
                (eventData parse wall impression # validImpressions, cache')))"

definition trackImpressionsBatch ::
  "AnalyticsConfig \<Rightarrow> (string \<Rightarrow> date) \<Rightarrow> int \<Rightarrow> int \<Rightarrow> bool \<Rightarrow> TrackImpressionDto list \<Rightarrow>
   state \<Rightarrow> (error + ImpressionEvent list) \<times> state" where
  "trackImpressionsBatch config parse now wall ok imps st =
     (if imps = [] then (Inr [], st)
      else
        let sessionItemPairs = map (\<lambda>imp. (session_id imp, item_id imp)) imps;
            startTime = now - RATE_LIMIT_WINDOW config;
            existingImpressions = findExistingImpressions st sessionItemPairs startTime;
            existingSet = set (map cacheKey existingImpressions)
        in (case impressionsLoop config parse now wall existingSet imps (impressionCache st) of
              (validImpressions, cache') \<Rightarrow>
                let st1 = st\<lparr>impressionCache := cache'\<rparr>
                in if validImpressions = [] then (Inr [], st1)
                   else createImpressionsBatch ok validImpressions st1))"

fun clicksLoop ::
  "AnalyticsConfig \<Rightarrow> (string \<Rightarrow> date) \<Rightarrow> int \<Rightarrow> int \<Rightarrow> string set \<Rightarrow> TrackClickDto list \<Rightarrow>
   (string \<Rightarrow> int option) \<Rightarrow> ClickEvent list \<times> (string \<Rightarrow> int option)" where
  "clicksLoop config parse now wall existingSet [] cache = ([], cache)"
| "clicksLoop config parse now wall existingSet (click # rest) cache =
     (if (case cache (cacheKey click) of
            None \<Rightarrow> False
          | Some lastClick \<Rightarrow> now - lastClick < CLICK_COOLDOWN config)
      then clicksLoop config parse now wall existingSet rest cache
      else if cacheKey click \<in> existingSet
      then clicksLoop config parse now wall existingSet rest cache
      else (case clicksLoop config parse now wall existingSet rest
                   (cache(cacheKey click \<mapsto> now)) of
              (validClicks, cache') \<Rightarrow> (eventData parse wall click # validClicks, cache')))"

definition trackClicksBatch ::
  "AnalyticsConfig \<Rightarrow> (string \<Rightarrow> date) \<Rightarrow> int \<Rightarrow> int \<Rightarrow> bool \<Rightarrow> TrackClickDto list \<Rightarrow>
   state \<Rightarrow> (error + ClickEvent list) \<times> state" where
  "trackClicksBatch config parse now wall ok cs st =
     (if cs = [] then (Inr [], st)
      else
        let sessionItemPairs = map (\<lambda>click. (session_id click, item_id click)) cs;
            startTime = now - RATE_LIMIT_WINDOW config;
            existingClicks = findExistingClicks st sessionItemPairs startTime;
            existingSet = set (map cacheKey existingClicks)
        in (case clicksLoop config parse now wall existingSet cs (clickCache st) of
              (validClicks, cache') \<Rightarrow>
                let st1 = st\<lparr>clickCache := cache'\<rparr>
                in if validClicks = [] then (Inr [], st1)
                   else createClicksBatch ok validClicks st1))"

section \<open>Retention\<close>

text \<open>
  \<^verbatim>\<open>cleanOldEvents\<close>. \<^verbatim>\<open>daysToKeep || DATA_RETENTION_DAYS\<close> takes the configured days
  for a missing argument and for 0. \<open>setDate now days\<close> is the runtime's calendar
  arithmetic, \<^verbatim>\<open>cutoffDate.setDate(cutoffDate.getDate() - days)\<close> on the date \<open>now\<close>;
  it may leave an Invalid Date. The two deletions touch different collections, and
  \<^verbatim>\<open>Promise.all\<close> raises when one of them does; with the one cutoff both raise or
  neither does.
\<close>

definition cleanOldEvents ::
  "AnalyticsConfig \<Rightarrow> (int \<Rightarrow> int \<Rightarrow> date) \<Rightarrow> int \<Rightarrow> int option \<Rightarrow> state \<Rightarrow>
   (error + nat \<times> nat) \<times> state" where
  "cleanOldEvents config setDate now daysToKeep st =
     (let days = (case daysToKeep of
                    None \<Rightarrow> DATA_RETENTION_DAYS config
                  | Some d \<Rightarrow> if d = 0 then DATA_RETENTION_DAYS config else d);
          cutoffDate = setDate now days
      in (case deleteOldImpressions cutoffDate st of
            (Inl err, st1) \<Rightarrow> (Inl err, st1)
          | (Inr impressionsDeleted, st1) \<Rightarrow>
              (case deleteOldClicks cutoffDate st1 of
                 (Inl err, st2) \<Rightarrow> (Inl err, st2)
               | (Inr clicksDeleted, st2) \<Rightarrow>
                   (Inr (impressionsDeleted, clicksDeleted), st2))))"

section \<open>Aggregation\<close>

record AnalyticsFilters =
  filter_item_id :: "string option"
  filter_user_id :: "string option"
  filter_session_id :: "string option"
  filter_source :: "string option"
  startDate :: "date option"
  endDate :: "date option"

record DateFilter =
  gte :: "int option"
  lte :: "int option"

text \<open>\<^verbatim>\<open>buildDateFilter\<close>: a bound is kept when it is a valid \<^verbatim>\<open>Date\<close>.\<close>

definition buildDateFilter :: "date option \<Rightarrow> date option \<Rightarrow> DateFilter" where
  "buildDateFilter start finish =
     \<lparr>gte = (case start of Some (Instant t) \<Rightarrow> Some t | _ \<Rightarrow> None),
      lte = (case finish of Some (Instant t) \<Rightarrow> Some t | _ \<Rightarrow> None)\<rparr>"

definition matchesBounds :: "DateFilter \<Rightarrow> date \<Rightarrow> bool" where
  "matchesBounds dateFilter d =
     ((case gte dateFilter of None \<Rightarrow> True | Some t \<Rightarrow> date_gte d t) \<and>
      (case lte dateFilter of None \<Rightarrow> True | Some t \<Rightarrow> date_lte d t))"

text \<open>
  \<^verbatim>\<open>buildAnalyticsFilter\<close>: a field is put in the query when it is truthy (a string:
  when it is not empty; a \<^verbatim>\<open>Date\<close>: always).
\<close>

record Query =
  q_item_id :: "string option"
  q_user_id :: "string option"
  q_session_id :: "string option"
  q_source :: "string option"
  q_timestamp :: "DateFilter option"

definition truthy :: "string option \<Rightarrow> string option" where
  "truthy v = (case v of None \<Rightarrow> None | Some s \<Rightarrow> if s = [] then None else Some s)"

definition buildAnalyticsFilter :: "AnalyticsFilters \<Rightarrow> Query" where
  "buildAnalyticsFilter filters =
     \<lparr>q_item_id = truthy (filter_item_id filters),
      q_user_id = truthy (filter_user_id filters),
      q_session_id = truthy (filter_session_id filters),
      q_source = truthy (filter_source filters),
      q_timestamp = (if startDate filters \<noteq> None \<or> endDate filters \<noteq> None
                     then Some (buildDateFilter (startDate filters) (endDate filters))
                     else None)\<rparr>"

fun sourceValue :: "TrackingSources \<Rightarrow> string" where
  "sourceValue SEARCH_RESULTS = ''search_results''"
| "sourceValue BROWSE = ''browse''"
| "sourceValue RECOMMENDATIONS = ''recommendations''"
| "sourceValue DIRECT = ''direct''"
| "sourceValue SEARCH = ''search''"

text \<open>
  A \<^verbatim>\<open>timestamp\<close> condition with neither bound is the empty object \<^verbatim>\<open>{}\<close>, which
  cannot be cast to a date: the query raises and is not sent.
\<close>

definition castFails :: "Query \<Rightarrow> bool" where
  "castFails query =
     (case q_timestamp query of
        None \<Rightarrow> False
      | Some dateFilter \<Rightarrow> gte dateFilter = None \<and> lte dateFilter = None)"

text \<open>Which documents a query selects.\<close>

definition matches :: "Query \<Rightarrow> date tracking \<Rightarrow> bool" where
  "matches query e =
     ((case q_item_id query of None \<Rightarrow> True | Some v \<Rightarrow> item_id e = v) \<and>
      (case q_user_id query of None \<Rightarrow> True | Some v \<Rightarrow> user_id e = Some v) \<and>
      (case q_session_id query of None \<Rightarrow> True | Some v \<Rightarrow> session_id e = v) \<and>
      (case q_source query of None \<Rightarrow> True | Some v \<Rightarrow> sourceValue (source e) = v) \<and>
      (case q_timestamp query of
         None \<Rightarrow> True
       | Some dateFilter \<Rightarrow> matchesBounds dateFilter (timestamp e)))"

definition countImpressionsByFilter :: "state \<Rightarrow> AnalyticsFilters \<Rightarrow> error + nat" where
  "countImpressionsByFilter st filters =
     (let query = buildAnalyticsFilter filters
      in if castFails query then Inl CastError
         else Inr (length (filter (matches query) (impressionModel st))))"

definition countClicksByFilter :: "state \<Rightarrow> AnalyticsFilters \<Rightarrow> error + nat" where
  "countClicksByFilter st filters =
     (let query = buildAnalyticsFilter filters
      in if castFails query then Inl CastError
         else Inr (length (filter (matches query) (clickModel st))))"

text \<open>\<^verbatim>\<open>this.impressionModel.distinct('item_id', query)\<close>.\<close>

definition getDistinctItemsByFilter :: "state \<Rightarrow> AnalyticsFilters \<Rightarrow> error + string list" where
  "getDistinctItemsByFilter st filters =
     (let query = buildAnalyticsFilter filters
      in if castFails query then Inl CastError
         else Inr (remdups (map item_id (filter (matches query) (impressionModel st)))))"

text \<open>
  \<^verbatim>\<open>getUserAnalytics\<close>. Its \<^verbatim>\<open>impressions\<close> and \<^verbatim>\<open>clicks\<close> are \<open>userImpressions\<close>
  and \<open>userClicks\<close> here; \<^verbatim>\<open>clickThroughRate\<close>, a floating-point quotient of the two,
  is left out.
\<close>

record UserAnalytics =
  userId :: string
  userImpressions :: nat
  userClicks :: nat
  viewedItems :: nat
  clickedItems :: nat

definition getUserAnalytics ::
  "state \<Rightarrow> string \<Rightarrow> date option \<Rightarrow> date option \<Rightarrow> error + UserAnalytics" where
  "getUserAnalytics st uid start finish =
     (let filters = \<lparr>filter_item_id = None, filter_user_id = Some uid, filter_session_id = None,
                      filter_source = None, startDate = start, endDate = finish\<rparr>
      in case countImpressionsByFilter st filters of
           Inl err \<Rightarrow> Inl err
         | Inr impressions \<Rightarrow>
             (case countClicksByFilter st filters of
                Inl err \<Rightarrow> Inl err
              | Inr clicks \<Rightarrow>
                  (case getDistinctItemsByFilter st filters of
                     Inl err \<Rightarrow> Inl err
                   | Inr viewed \<Rightarrow>
                       (case getDistinctItemsByFilter st filters of
                          Inl err \<Rightarrow> Inl err
                        | Inr clicked \<Rightarrow>
                            Inr \<lparr>userId = uid, userImpressions = impressions,
                                 userClicks = clicks, viewedItems = length viewed,
                                 clickedItems = length clicked\<rparr>))))"

text \<open>
  \<^verbatim>\<open>getPopularItemsAggregation\<close>: \<^verbatim>\<open>$match\<close> (when the date filter has a bound),
  \<^verbatim>\<open>$group\<close> by \<^verbatim>\<open>item_id\<close>, \<^verbatim>\<open>$project\<close>, \<^verbatim>\<open>$sort: { impressions: -1 }\<close>,
  \<^verbatim>\<open>$limit\<close>. The store does not say in which order \<^verbatim>\<open>$group\<close> emits its groups, nor
  how \<^verbatim>\<open>$sort\<close> orders documents whose sort keys are equal: \<open>emit\<close> is that order, a
  rearrangement of the groups, and the sort after it keeps equal keys as \<open>emit\<close> left
  them. \<^verbatim>\<open>$addToSet\<close> collects the values of the documents that have the field.
\<close>

record PopularItem =
  itemId :: string
  impressions :: nat
  uniqueUsers :: nat
  uniqueSessions :: nat





section \<open>Sequences of calls and sample inputs\<close>

datatype EventKind = Impression | Click

text \<open>A single submission of either kind, and what the kind selects in the state.\<close>

definition trackEvent ::
  "EventKind \<Rightarrow> AnalyticsConfig \<Rightarrow> (string \<Rightarrow> date) \<Rightarrow> int \<Rightarrow> int \<Rightarrow> bool \<Rightarrow>
   string option tracking \<Rightarrow> state \<Rightarrow> (error + date tracking) \<times> state" where
  "trackEvent kind config parse now wall ok dto st =
     (case kind of
        Impression \<Rightarrow> trackImpression config parse now wall ok dto st
      | Click \<Rightarrow> trackClick config parse now wall ok dto st)"

definition cooldown :: "EventKind \<Rightarrow> AnalyticsConfig \<Rightarrow> int" where
  "cooldown kind config =
     (case kind of Impression \<Rightarrow> IMPRESSION_COOLDOWN config | Click \<Rightarrow> CLICK_COOLDOWN config)"

definition cacheOf :: "EventKind \<Rightarrow> state \<Rightarrow> string \<Rightarrow> int option" where
  "cacheOf kind st = (case kind of Impression \<Rightarrow> impressionCache st | Click \<Rightarrow> clickCache st)"

definition modelOf :: "EventKind \<Rightarrow> state \<Rightarrow> date tracking list" where
  "modelOf kind st = (case kind of Impression \<Rightarrow> impressionModel st | Click \<Rightarrow> clickModel st)"

text \<open>
  Calls one after another, each finished before the next starts: a submission is
  \<open>(kind, now, wall, ok, dto)\<close>.
\<close>

type_synonym submission = "EventKind \<times> int \<times> int \<times> bool \<times> string option tracking"

fun trackEvent_seq ::
  "AnalyticsConfig \<Rightarrow> (string \<Rightarrow> date) \<Rightarrow> submission list \<Rightarrow> state \<Rightarrow>
   (error + date tracking) list \<times> state" where
  "trackEvent_seq config parse [] st = ([], st)"
| "trackEvent_seq config parse ((kind, now, wall, ok, dto) # rest) st =
     (case trackEvent kind config parse now wall ok dto st of
        (r, st1) \<Rightarrow>
          (case trackEvent_seq config parse rest st1 of
             (rs, st2) \<Rightarrow> (r # rs, st2)))"


definition sampleDto :: "string \<Rightarrow> string \<Rightarrow> string option \<Rightarrow> string option tracking" where
  "sampleDto sid iid ts =
     \<lparr>item_id = iid, session_id = sid, user_id = None, source = BROWSE,
      search_query = None, position_in_results = None, timestamp = ts\<rparr>"

definition sampleEvent :: "string \<Rightarrow> string \<Rightarrow> string option \<Rightarrow> date \<Rightarrow> date tracking" where
  "sampleEvent sid iid uid ts =
     \<lparr>item_id = iid, session_id = sid, user_id = uid, source = BROWSE,
      search_query = None, position_in_results = None, timestamp = ts\<rparr>"

text \<open>
  For the examples: what \<^verbatim>\<open>new Date\<close> makes of the strings they use. Any other
  string of the examples, the empty one too, gives an Invalid Date.
\<close>

definition sampleParse :: "string \<Rightarrow> date" where
  "sampleParse s =
     (if s = ''1970-01-01T00:16:40.000Z'' then Instant 1000000
      else if s = ''1970-01-01T00:20:00.000Z'' then Instant 1200000
      else if s = ''1969-12-31T23:00:00.000Z'' then Instant (- 3600000)
      else if s = ''1969-12-31T23:00:30.000Z'' then Instant (- 3570000)
      else InvalidDate)"

text \<open>A batch of either kind.\<close>

definition trackBatch ::
  "EventKind \<Rightarrow> AnalyticsConfig \<Rightarrow> (string \<Rightarrow> date) \<Rightarrow> int \<Rightarrow> int \<Rightarrow> bool \<Rightarrow>
   string option tracking list \<Rightarrow> state \<Rightarrow> (error + date tracking list) \<times> state" where
  "trackBatch kind config parse now wall ok dtos st =
     (case kind of
        Impression \<Rightarrow> trackImpressionsBatch config parse now wall ok dtos st
      | Click \<Rightarrow> trackClicksBatch config parse now wall ok dtos st)"

text \<open>
  When the loop of a batch skips a key: its cache entry is within the cooldown \<open>cd\<close>, or
  the store had an event of it in the window.
\<close>

definition blocked :: "int \<Rightarrow> int \<Rightarrow> string set \<Rightarrow> (string \<Rightarrow> int option) \<Rightarrow> string \<Rightarrow> bool" where
  "blocked cd now existingSet cache key =
     ((case cache key of None \<Rightarrow> False | Some t \<Rightarrow> now - t < cd) \<or> key \<in> existingSet)"


section \<open>The acceptance rule as the specification words it\<close>














section \<open>First properties\<close>

lemma default_config_simps [simp]:
  "RATE_LIMIT_WINDOW default_config = 60000"
  "IMPRESSION_COOLDOWN default_config = 30000"
  "CLICK_COOLDOWN default_config = 5000"
  "DATA_RETENTION_DAYS default_config = 90"
  by (simp_all add: default_config_def)

lemma cacheKey_same:
  "session_id d2 = session_id d1 \<Longrightarrow> item_id d2 = item_id d1 \<Longrightarrow> cacheKey d2 = cacheKey d1"
  by (simp add: cacheKey_def)

lemma validates_eventData:
  "validates ((eventData parse wall dto)\<lparr>position_in_results := None\<rparr>) =
   validates (eventData parse wall dto)"
  by (simp add: validates_def)

lemma trackEvent_Impression [simp]:
  "trackEvent Impression config parse now wall ok dto st =
   trackImpression config parse now wall ok dto st"
  by (simp add: trackEvent_def)

lemma trackEvent_Click [simp]:
  "trackEvent Click config parse now wall ok dto st = trackClick config parse now wall ok dto st"
  by (simp add: trackEvent_def)

text \<open>
  What a single submission does, in the order of the code: refused by the cache check;
  refused by the query; or the cache entry written and the document handed to the
  insert, which refuses it as invalid, fails, or stores it.
\<close>

lemma trackImpression_effect:
  assumes "trackImpression config parse now wall ok dto st = (r, st')"
  shows "(r = Inl TooRecent \<and> st' = st \<and>
            (\<exists>t0. impressionCache st (cacheKey dto) = Some t0 \<and>
                  now - t0 < IMPRESSION_COOLDOWN config)) \<or>
         (r = Inl AlreadyTracked \<and> st' = st \<and>
            trackImpression_check config now dto st = None \<and>
            (\<exists>e \<in> set (impressionModel st). session_id e = session_id dto \<and>
               item_id e = item_id dto \<and>
               date_gte (timestamp e) (now - RATE_LIMIT_WINDOW config))) \<or>
         (trackImpression_check config now dto st = None \<and>
          (\<forall>e \<in> set (impressionModel st). \<not> (session_id e = session_id dto \<and>
               item_id e = item_id dto \<and>
               date_gte (timestamp e) (now - RATE_LIMIT_WINDOW config))) \<and>
          ((r = Inl ValidationError \<and> \<not> validates (eventData parse wall dto) \<and>
              st' = st\<lparr>impressionCache := (impressionCache st)(cacheKey dto \<mapsto> now)\<rparr>) \<or>
           (r = Inl StoreFailure \<and> validates (eventData parse wall dto) \<and> \<not> ok \<and>
              st' = st\<lparr>impressionCache := (impressionCache st)(cacheKey dto \<mapsto> now)\<rparr>) \<or>
           (r = Inr ((eventData parse wall dto)\<lparr>position_in_results := None\<rparr>) \<and>
              validates (eventData parse wall dto) \<and> ok \<and>
              st' = st\<lparr>impressionCache := (impressionCache st)(cacheKey dto \<mapsto> now),
                        impressionModel := impressionModel st @
                          [(eventData parse wall dto)\<lparr>position_in_results := None\<rparr>]\<rparr>)))"
proof (cases "trackImpression_check config now dto st")
  case (Some err)
  with assms show ?thesis
    by (auto simp: trackImpression_def trackImpression_check_def split: option.splits if_splits)
next
  case None
  show ?thesis
  proof (cases "findImpressionBySessionAndItem st (session_id dto) (item_id dto)
                  (now - RATE_LIMIT_WINDOW config)")
    case found: (Some e)
    then have "\<exists>e \<in> set (impressionModel st). session_id e = session_id dto \<and>
               item_id e = item_id dto \<and>
               date_gte (timestamp e) (now - RATE_LIMIT_WINDOW config)"
      by (auto simp: findImpressionBySessionAndItem_def find_Some_iff)
    with assms None found show ?thesis
      by (simp add: trackImpression_def trackImpression_resume_def Let_def)
  next
    case none: None
    then have nf: "\<forall>e \<in> set (impressionModel st). \<not> (session_id e = session_id dto \<and>
               item_id e = item_id dto \<and>
               date_gte (timestamp e) (now - RATE_LIMIT_WINDOW config))"
      by (auto simp: findImpressionBySessionAndItem_def find_None_iff)
    have "(r, st') = createImpression ok (eventData parse wall dto)
                     (st\<lparr>impressionCache := (impressionCache st)(cacheKey dto \<mapsto> now)\<rparr>)"
      using assms None none
      by (simp add: trackImpression_def trackImpression_resume_def Let_def)
    then have "(r = Inl ValidationError \<and> \<not> validates (eventData parse wall dto) \<and>
              st' = st\<lparr>impressionCache := (impressionCache st)(cacheKey dto \<mapsto> now)\<rparr>) \<or>
           (r = Inl StoreFailure \<and> validates (eventData parse wall dto) \<and> \<not> ok \<and>
              st' = st\<lparr>impressionCache := (impressionCache st)(cacheKey dto \<mapsto> now)\<rparr>) \<or>
           (r = Inr ((eventData parse wall dto)\<lparr>position_in_results := None\<rparr>) \<and>
              validates (eventData parse wall dto) \<and> ok \<and>
              st' = st\<lparr>impressionCache := (impressionCache st)(cacheKey dto \<mapsto> now),
                        impressionModel := impressionModel st @
                          [(eventData parse wall dto)\<lparr>position_in_results := None\<rparr>]\<rparr>)"
      by (auto simp: createImpression_def Let_def validates_eventData split: if_splits)
    with None nf show ?thesis
      by blast
  qed
qed

lemma trackClick_effect:
  assumes "trackClick config parse now wall ok dto st = (r, st')"
  shows "(r = Inl TooRecent \<and> st' = st \<and>
            (\<exists>t0. clickCache st (cacheKey dto) = Some t0 \<and>
                  now - t0 < CLICK_COOLDOWN config)) \<or>
         (r = Inl AlreadyTracked \<and> st' = st \<and>
            trackClick_check config now dto st = None \<and>
            (\<exists>e \<in> set (clickModel st). session_id e = session_id dto \<and>
               item_id e = item_id dto \<and>
               date_gte (timestamp e) (now - RATE_LIMIT_WINDOW config))) \<or>
         (trackClick_check config now dto st = None \<and>
          (\<forall>e \<in> set (clickModel st). \<not> (session_id e = session_id dto \<and>
               item_id e = item_id dto \<and>
               date_gte (timestamp e) (now - RATE_LIMIT_WINDOW config))) \<and>
          ((r = Inl ValidationError \<and> \<not> validates (eventData parse wall dto) \<and>
              st' = st\<lparr>clickCache := (clickCache st)(cacheKey dto \<mapsto> now)\<rparr>) \<or>
           (r = Inl StoreFailure \<and> validates (eventData parse wall dto) \<and> \<not> ok \<and>
              st' = st\<lparr>clickCache := (clickCache st)(cacheKey dto \<mapsto> now)\<rparr>) \<or>
           (r = Inr (eventData parse wall dto) \<and>
              validates (eventData parse wall dto) \<and> ok \<and>
              st' = st\<lparr>clickCache := (clickCache st)(cacheKey dto \<mapsto> now),
                        clickModel := clickModel st @ [eventData parse wall dto]\<rparr>)))"
proof (cases "trackClick_check config now dto st")
  case (Some err)
  with assms show ?thesis
    by (auto simp: trackClick_def trackClick_check_def split: option.splits if_splits)
next
  case None
  show ?thesis
  proof (cases "findClickBySessionAndItem st (session_id dto) (item_id dto)
                  (now - RATE_LIMIT_WINDOW config)")
    case found: (Some e)
    then have "\<exists>e \<in> set (clickModel st). session_id e = session_id dto \<and>
               item_id e = item_id dto \<and>
               date_gte (timestamp e) (now - RATE_LIMIT_WINDOW config)"
      by (auto simp: findClickBySessionAndItem_def find_Some_iff)
    with assms None found show ?thesis
      by (simp add: trackClick_def trackClick_resume_def Let_def)
  next
    case none: None
    then have nf: "\<forall>e \<in> set (clickModel st). \<not> (session_id e = session_id dto \<and>
               item_id e = item_id dto \<and>
               date_gte (timestamp e) (now - RATE_LIMIT_WINDOW config))"
      by (auto simp: findClickBySessionAndItem_def find_None_iff)
    have "(r, st') = createClick ok (eventData parse wall dto)
                     (st\<lparr>clickCache := (clickCache st)(cacheKey dto \<mapsto> now)\<rparr>)"
      using assms None none
      by (simp add: trackClick_def trackClick_resume_def Let_def)
    then have "(r = Inl ValidationError \<and> \<not> validates (eventData parse wall dto) \<and>
              st' = st\<lparr>clickCache := (clickCache st)(cacheKey dto \<mapsto> now)\<rparr>) \<or>
           (r = Inl StoreFailure \<and> validates (eventData parse wall dto) \<and> \<not> ok \<and>
              st' = st\<lparr>clickCache := (clickCache st)(cacheKey dto \<mapsto> now)\<rparr>) \<or>
           (r = Inr (eventData parse wall dto) \<and>
              validates (eventData parse wall dto) \<and> ok \<and>
              st' = st\<lparr>clickCache := (clickCache st)(cacheKey dto \<mapsto> now),
                        clickModel := clickModel st @ [eventData parse wall dto]\<rparr>)"
      by (auto simp: createClick_def split: if_splits)
    with None nf show ?thesis
      by blast
  qed
qed

lemma trackImpression_too_recent:
  "impressionCache st (cacheKey dto) = Some t0 \<Longrightarrow> now - t0 < IMPRESSION_COOLDOWN config \<Longrightarrow>
   trackImpression config parse now wall ok dto st = (Inl TooRecent, st)"
  by (simp add: trackImpression_def trackImpression_check_def)

lemma trackClick_too_recent:
  "clickCache st (cacheKey dto) = Some t0 \<Longrightarrow> now - t0 < CLICK_COOLDOWN config \<Longrightarrow>
   trackClick config parse now wall ok dto st = (Inl TooRecent, st)"
  by (simp add: trackClick_def trackClick_check_def)

text \<open>The same for either kind, in terms of the kind's cache and collection.\<close>

lemma trackEvent_effect:
  assumes "trackEvent kind config parse now wall ok dto st = (r, st')"
  shows "(r = Inl TooRecent \<and> st' = st \<and>
            (\<exists>t0. cacheOf kind st (cacheKey dto) = Some t0 \<and> now - t0 < cooldown kind config)) \<or>
         (r = Inl AlreadyTracked \<and> st' = st \<and>
            (\<forall>t0. cacheOf kind st (cacheKey dto) = Some t0 \<longrightarrow> \<not> now - t0 < cooldown kind config) \<and>
            (\<exists>e \<in> set (modelOf kind st). session_id e = session_id dto \<and>
               item_id e = item_id dto \<and>
               date_gte (timestamp e) (now - RATE_LIMIT_WINDOW config))) \<or>
         ((\<forall>t0. cacheOf kind st (cacheKey dto) = Some t0 \<longrightarrow> \<not> now - t0 < cooldown kind config) \<and>
          (\<forall>e \<in> set (modelOf kind st). \<not> (session_id e = session_id dto \<and>
               item_id e = item_id dto \<and>
               date_gte (timestamp e) (now - RATE_LIMIT_WINDOW config))) \<and>
          cacheOf kind st' = (cacheOf kind st)(cacheKey dto \<mapsto> now) \<and>
          (\<forall>k. k \<noteq> kind \<longrightarrow> cacheOf k st' = cacheOf k st \<and> modelOf k st' = modelOf k st) \<and>
          ((r = Inl ValidationError \<and> \<not> validates (eventData parse wall dto) \<and>
              modelOf kind st' = modelOf kind st) \<or>
           (r = Inl StoreFailure \<and> validates (eventData parse wall dto) \<and> \<not> ok \<and>
              modelOf kind st' = modelOf kind st) \<or>
           (\<exists>ev. r = Inr ev \<and> validates (eventData parse wall dto) \<and> ok \<and>
              session_id ev = session_id dto \<and> item_id ev = item_id dto \<and>
              timestamp ev = timestamp (eventData parse wall dto) \<and>
              modelOf kind st' = modelOf kind st @ [ev])))"
proof (cases kind)
  case Impression
  have chk: "(trackImpression_check config now dto st = None) =
             (\<forall>t0. impressionCache st (cacheKey dto) = Some t0 \<longrightarrow>
                   \<not> now - t0 < IMPRESSION_COOLDOWN config)"
    by (auto simp: trackImpression_check_def split: option.splits)
  have o: "\<And>k. k \<noteq> Impression \<Longrightarrow> k = Click"
    by (case_tac k) auto
  from assms Impression have "trackImpression config parse now wall ok dto st = (r, st')"
    by simp
  from trackImpression_effect[OF this] show ?thesis
    unfolding Impression chk
    by (elim disjE conjE) (auto simp: cacheOf_def modelOf_def cooldown_def eventData_def dest: o)
next
  case Click
  have chk: "(trackClick_check config now dto st = None) =
             (\<forall>t0. clickCache st (cacheKey dto) = Some t0 \<longrightarrow>
                   \<not> now - t0 < CLICK_COOLDOWN config)"
    by (auto simp: trackClick_check_def split: option.splits)
  have o: "\<And>k. k \<noteq> Click \<Longrightarrow> k = Impression"
    by (case_tac k) auto
  from assms Click have "trackClick config parse now wall ok dto st = (r, st')"
    by simp
  from trackClick_effect[OF this] show ?thesis
    unfolding Click chk
    by (elim disjE conjE) (auto simp: cacheOf_def modelOf_def cooldown_def eventData_def dest: o)
qed

section \<open>The cache is written before the insert\<close>

text \<open>
  C10. In \<^verbatim>\<open>trackImpression\<close> the cache entry of the key is set before
  \<^verbatim>\<open>createImpression\<close> is called. When the insert then fails, the entry stays: the
  cache holds the time of the attempt, the collection is as it was, and a later
  submission of the same session and item within the cooldown is refused as too recent,
  although no event was stored.
\<close>

theorem store_failure_keeps_cache_entry:
  assumes "trackImpression config parse now wall ok dto st = (Inl StoreFailure, st1)"
    and "session_id dto2 = session_id dto" and "item_id dto2 = item_id dto"
    and "now2 - now < IMPRESSION_COOLDOWN config"
  shows "impressionCache st1 (cacheKey dto) = Some now \<and>
         impressionModel st1 = impressionModel st \<and>
         trackImpression config parse now2 wall2 ok2 dto2 st1 = (Inl TooRecent, st1)"
proof -
  have st1: "st1 = st\<lparr>impressionCache := (impressionCache st)(cacheKey dto \<mapsto> now)\<rparr>"
    using trackImpression_effect[OF assms(1)] by auto
  have c: "impressionCache st1 (cacheKey dto) = Some now"
    by (simp add: st1)
  have s: "impressionModel st1 = impressionModel st"
    by (simp add: st1)
  have k: "cacheKey dto2 = cacheKey dto"
    using assms(2,3) by (rule cacheKey_same)
  have "trackImpression config parse now2 wall2 ok2 dto2 st1 = (Inl TooRecent, st1)"
    using c k assms(4) by (simp add: trackImpression_too_recent)
  with c s show ?thesis by simp
qed

lemma failed_insert_sample:
  "trackImpression default_config parse 0 0 False (sampleDto ''s1'' ''i1'' None) empty_state =
     (Inl StoreFailure, empty_state\<lparr>impressionCache := (\<lambda>k. None)(''s1_i1'' \<mapsto> 0)\<rparr>)"
  by (simp add: trackImpression_def trackImpression_check_def trackImpression_resume_def
      findImpressionBySessionAndItem_def createImpression_def validates_def eventData_def
      empty_state_def sampleDto_def cacheKey_def Let_def)

theorem store_failure_keeps_cache_entry_witness:
  "trackImpression default_config (\<lambda>s. InvalidDate) 0 0 False (sampleDto ''s1'' ''i1'' None)
     empty_state =
     (Inl StoreFailure, empty_state\<lparr>impressionCache := (\<lambda>k. None)(''s1_i1'' \<mapsto> 0)\<rparr>) \<and>
   (10000::int) - 0 < IMPRESSION_COOLDOWN default_config \<and>
   impressionModel (empty_state\<lparr>impressionCache := (\<lambda>k. None)(''s1_i1'' \<mapsto> 0)\<rparr>) = [] \<and>
   trackImpression default_config (\<lambda>s. InvalidDate) 10000 10000 True
     (sampleDto ''s1'' ''i1'' None)
     (empty_state\<lparr>impressionCache := (\<lambda>k. None)(''s1_i1'' \<mapsto> 0)\<rparr>) =
     (Inl TooRecent, empty_state\<lparr>impressionCache := (\<lambda>k. None)(''s1_i1'' \<mapsto> 0)\<rparr>)"
proof -
  have h: "trackImpression default_config (\<lambda>s. InvalidDate) 0 0 False
             (sampleDto ''s1'' ''i1'' None) empty_state =
           (Inl StoreFailure, empty_state\<lparr>impressionCache := (\<lambda>k. None)(''s1_i1'' \<mapsto> 0)\<rparr>)"
    by (rule failed_insert_sample)
  have n: "(10000::int) - 0 < IMPRESSION_COOLDOWN default_config"
    by simp
  show ?thesis
    using h n store_failure_keeps_cache_entry[OF h refl refl n, of 10000 True]
    by (simp add: empty_state_def)
qed

section \<open>The decision is a check, a read and an insert\<close>

lemma accepted_sample:
  "trackImpression default_config parse 0 0 True (sampleDto ''s1'' ''i1'' None) empty_state =
     (Inr (sampleEvent ''s1'' ''i1'' None (Instant 0)),
      empty_state\<lparr>impressionCache := (\<lambda>k. None)(''s1_i1'' \<mapsto> 0),
                  impressionModel := [sampleEvent ''s1'' ''i1'' None (Instant 0)]\<rparr>)"
  by (simp add: trackImpression_def trackImpression_check_def trackImpression_resume_def
      findImpressionBySessionAndItem_def createImpression_def validates_def empty_state_def
      sampleDto_def sampleEvent_def eventData_def cacheKey_def Let_def)

text \<open>
  C2, as the code has it. The decision of \<^verbatim>\<open>trackImpression\<close> is made in the service:
  a cache check, a \<^verbatim>\<open>findOne\<close>, and then a cache write and an insert. Calls that do
  not overlap exclude each other: after a submission of a key was accepted, a later one
  of the same key is refused when it comes within the cooldown, or when the stored
  event's timestamp is within the rate-limit window.
\<close>

theorem sequential_calls_exclude:
  assumes "trackImpression config parse now1 wall1 ok1 dto1 st = (Inr ev, st1)"
    and "session_id dto2 = session_id dto1" and "item_id dto2 = item_id dto1"
    and "now2 - now1 < IMPRESSION_COOLDOWN config \<or>
         date_gte (timestamp ev) (now2 - RATE_LIMIT_WINDOW config)"
  shows "trackImpression config parse now2 wall2 ok2 dto2 st1 = (Inl TooRecent, st1) \<or>
         trackImpression config parse now2 wall2 ok2 dto2 st1 = (Inl AlreadyTracked, st1)"
proof (cases "trackImpression_check config now2 dto2 st1")
  case (Some err)
  then show ?thesis
    by (auto simp: trackImpression_def trackImpression_check_def split: option.splits if_splits)
next
  case None
  have e: "ev = (eventData parse wall1 dto1)\<lparr>position_in_results := None\<rparr>"
    and st1: "st1 = st\<lparr>impressionCache := (impressionCache st)(cacheKey dto1 \<mapsto> now1),
                       impressionModel := impressionModel st @ [ev]\<rparr>"
    using trackImpression_effect[OF assms(1)] by auto
  have c: "impressionCache st1 (cacheKey dto1) = Some now1"
    by (simp add: st1)
  have k: "cacheKey dto2 = cacheKey dto1"
    using assms(2,3) by (rule cacheKey_same)
  from None c k have far: "\<not> now2 - now1 < IMPRESSION_COOLDOWN config"
    by (simp add: trackImpression_check_def split: if_splits)
  with assms(4) have recent: "date_gte (timestamp ev) (now2 - RATE_LIMIT_WINDOW config)"
    by simp
  have m: "impressionModel st1 = impressionModel st @ [ev]"
    by (simp add: st1)
  have "session_id ev = session_id dto2" "item_id ev = item_id dto2"
    using e assms(2,3) by (simp_all add: eventData_def)
  with recent m have "findImpressionBySessionAndItem st1 (session_id dto2) (item_id dto2)
          (now2 - RATE_LIMIT_WINDOW config) \<noteq> None"
    by (auto simp: findImpressionBySessionAndItem_def find_None_iff)
  with None show ?thesis
    by (auto simp: trackImpression_def trackImpression_resume_def Let_def)
qed

theorem sequential_calls_exclude_witness:
  "trackImpression default_config (\<lambda>s. InvalidDate) 40000 40000 True
     (sampleDto ''s1'' ''i1'' None)
     (empty_state\<lparr>impressionCache := (\<lambda>k. None)(''s1_i1'' \<mapsto> 0),
                  impressionModel := [sampleEvent ''s1'' ''i1'' None (Instant 0)]\<rparr>) =
     (Inl AlreadyTracked,
      empty_state\<lparr>impressionCache := (\<lambda>k. None)(''s1_i1'' \<mapsto> 0),
                  impressionModel := [sampleEvent ''s1'' ''i1'' None (Instant 0)]\<rparr>)"
proof -
  have h: "trackImpression default_config (\<lambda>s. InvalidDate) 0 0 True
             (sampleDto ''s1'' ''i1'' None) empty_state =
           (Inr (sampleEvent ''s1'' ''i1'' None (Instant 0)),
            empty_state\<lparr>impressionCache := (\<lambda>k. None)(''s1_i1'' \<mapsto> 0),
                        impressionModel := [sampleEvent ''s1'' ''i1'' None (Instant 0)]\<rparr>)"
    by (rule accepted_sample)
  have w: "40000 - 0 < IMPRESSION_COOLDOWN default_config \<or>
           date_gte (timestamp (sampleEvent ''s1'' ''i1'' None (Instant 0)))
             (40000 - RATE_LIMIT_WINDOW default_config)"
    by (simp add: sampleEvent_def)
  have n: "trackImpression default_config (\<lambda>s. InvalidDate) 40000 40000 True
             (sampleDto ''s1'' ''i1'' None)
             (empty_state\<lparr>impressionCache := (\<lambda>k. None)(''s1_i1'' \<mapsto> 0),
                          impressionModel := [sampleEvent ''s1'' ''i1'' None (Instant 0)]\<rparr>) \<noteq>
           (Inl TooRecent,
            empty_state\<lparr>impressionCache := (\<lambda>k. None)(''s1_i1'' \<mapsto> 0),
                        impressionModel := [sampleEvent ''s1'' ''i1'' None (Instant 0)]\<rparr>)"
    by (simp add: trackImpression_def trackImpression_check_def trackImpression_resume_def
        findImpressionBySessionAndItem_def empty_state_def sampleDto_def sampleEvent_def
        cacheKey_def Let_def)
  from sequential_calls_exclude[OF h refl refl w, where ?wall2.0 = 40000 and ?ok2.0 = True] n
  show ?thesis
    by blast
qed

text \<open>
  C2 as stated fails: two calls for one key that overlap, the second starting before the
  first resumes from its read, both pass the cache check, both read "no event", and both
  insert.
\<close>

theorem overlapping_calls_both_accepted:
  "trackImpression_check default_config 0 (sampleDto ''s1'' ''i1'' None) empty_state = None \<and>
   findImpressionBySessionAndItem empty_state ''s1'' ''i1'' (0 - 60000) = None \<and>
   trackImpression_check default_config 1 (sampleDto ''s1'' ''i1'' None) empty_state = None \<and>
   findImpressionBySessionAndItem empty_state ''s1'' ''i1'' (1 - 60000) = None \<and>
   trackImpression_resume (\<lambda>s. InvalidDate) 0 0 True (sampleDto ''s1'' ''i1'' None) None empty_state =
     (Inr (sampleEvent ''s1'' ''i1'' None (Instant 0)),
      empty_state\<lparr>impressionCache := (\<lambda>k. None)(''s1_i1'' \<mapsto> 0),
                  impressionModel := [sampleEvent ''s1'' ''i1'' None (Instant 0)]\<rparr>) \<and>
   trackImpression_resume (\<lambda>s. InvalidDate) 1 1 True (sampleDto ''s1'' ''i1'' None) None
     (empty_state\<lparr>impressionCache := (\<lambda>k. None)(''s1_i1'' \<mapsto> 0),
                  impressionModel := [sampleEvent ''s1'' ''i1'' None (Instant 0)]\<rparr>) =
     (Inr (sampleEvent ''s1'' ''i1'' None (Instant 1)),
      empty_state\<lparr>impressionCache := (\<lambda>k. None)(''s1_i1'' \<mapsto> 1),
                  impressionModel := [sampleEvent ''s1'' ''i1'' None (Instant 0),
                                      sampleEvent ''s1'' ''i1'' None (Instant 1)]\<rparr>)"
  by (simp add: trackImpression_check_def trackImpression_resume_def
      findImpressionBySessionAndItem_def createImpression_def validates_def empty_state_def
      sampleDto_def sampleEvent_def eventData_def cacheKey_def Let_def)

lemma other_kind: "k \<noteq> kind \<Longrightarrow> kind = Impression \<Longrightarrow> k = Click"
  "k \<noteq> kind \<Longrightarrow> kind = Click \<Longrightarrow> k = Impression"
  by (cases k; simp)+

lemma trackEvent_rejected:
  assumes "trackEvent kind config parse now wall ok dto st = (Inl err, st')"
  shows "err = TooRecent \<or> err = AlreadyTracked \<Longrightarrow> st' = st"
    and "modelOf k st' = modelOf k st"
proof -
  show "err = TooRecent \<or> err = AlreadyTracked \<Longrightarrow> st' = st"
    using trackEvent_effect[OF assms] by auto
  show "modelOf k st' = modelOf k st"
    using trackEvent_effect[OF assms] by (cases "k = kind") auto
qed

lemma trackEvent_accepted_cache:
  assumes "trackEvent kind config parse now wall ok dto st = (Inr ev, st')"
  shows "cacheOf kind st' (cacheKey dto) = Some now"
  using trackEvent_effect[OF assms] by auto

lemma trackEvent_too_recent:
  "cacheOf kind st (cacheKey dto) = Some t0 \<Longrightarrow> now - t0 < cooldown kind config \<Longrightarrow>
   trackEvent kind config parse now wall ok dto st = (Inl TooRecent, st)"
  by (cases kind)
    (simp_all add: cacheOf_def cooldown_def trackImpression_too_recent trackClick_too_recent)

lemma retries_too_recent:
  assumes "cacheOf kind st (cacheKey dto) = Some t0"
    and "\<forall>q \<in> set retries. (case q of (k, now, wall, ok, d) \<Rightarrow>
            k = kind \<and> session_id d = session_id dto \<and> item_id d = item_id dto \<and>
            now - t0 < cooldown kind config)"
  shows "trackEvent_seq config parse retries st =
           (replicate (length retries) (Inl TooRecent), st)"
  using assms(2)
proof (induction retries)
  case Nil
  then show ?case by simp
next
  case (Cons q retries)
  obtain k now wall ok d where q: "q = (k, now, wall, ok, d)"
    by (cases q) auto
  from Cons.prems q have kind: "k = kind"
    and same: "session_id d = session_id dto" "item_id d = item_id dto"
    and near: "now - t0 < cooldown kind config"
    by simp_all
  have "cacheKey d = cacheKey dto"
    using same by (rule cacheKey_same)
  with assms(1) near have step: "trackEvent kind config parse now wall ok d st = (Inl TooRecent, st)"
    by (simp add: trackEvent_too_recent)
  from Cons.prems have "\<forall>q \<in> set retries. (case q of (k, now, wall, ok, d) \<Rightarrow>
            k = kind \<and> session_id d = session_id dto \<and> item_id d = item_id dto \<and>
            now - t0 < cooldown kind config)"
    by simp
  then have ih: "trackEvent_seq config parse retries st =
                   (replicate (length retries) (Inl TooRecent), st)"
    by (rule Cons.IH)
  show ?case
    unfolding q kind by (simp add: step ih)
qed

section \<open>Rejections\<close>

lemma trackEvent_rejected_at_insert:
  assumes "trackEvent kind config parse now wall ok dto st = (Inl err, st')"
    and "err = ValidationError \<or> err = StoreFailure"
  shows "cacheOf kind st' = (cacheOf kind st)(cacheKey dto \<mapsto> now)"
  using trackEvent_effect[OF assms(1)] assms(2) by auto

text \<open>
  The cleanup timer keeps a cache entry that is within the cooldown, when the cooldown is
  no longer than the rate-limit window, as with the defaults; and it does not touch the
  collections.
\<close>

lemma cleanupTick_keeps_recent:
  assumes "cacheOf kind st key = Some t0"
    and "tick - t0 < cooldown kind config" and "tick' - t0 < cooldown kind config"
    and "cooldown kind config \<le> RATE_LIMIT_WINDOW config"
  shows "cacheOf kind (cleanupTick config tick tick' st) key = Some t0"
    and "modelOf k (cleanupTick config tick tick' st) = modelOf k st"
  using assms
  by (cases kind; cases k; simp add: cleanupTick_def cleanCache_def cacheOf_def modelOf_def Let_def)+

text \<open>
  C6, as the code has it. A single submission of either kind that is refused by one of
  the service's own checks (too recent, already tracked) leaves the caches and the
  collections as they were. One that is refused at the insert (the document does not
  validate, or the store fails) has written its cache entry by then. No refused
  submission, whatever refuses it, stores an event. After a submission of a key was
  accepted at \<open>t0\<close>, resubmissions of that key at times within the cooldown of \<open>t0\<close>,
  however many, are all refused as too recent and change nothing; and a run of the
  cleanup timer within that time keeps the cache entry, when the cooldown is no longer
  than the rate-limit window.
\<close>

theorem rejection_effects:
  "(trackEvent kind config parse now wall ok dto st = (Inl err, st') \<longrightarrow>
      (err = TooRecent \<or> err = AlreadyTracked \<longrightarrow> st' = st) \<and>
      (err = ValidationError \<or> err = StoreFailure \<longrightarrow>
         cacheOf kind st' = (cacheOf kind st)(cacheKey dto \<mapsto> now)) \<and>
      modelOf Impression st' = modelOf Impression st \<and>
      modelOf Click st' = modelOf Click st) \<and>
   (trackEvent kind config parse t0 w0 ok0 dto st = (Inr ev, st1) \<and>
    (\<forall>q \<in> set retries. (case q of (k, now, wall, ok, d) \<Rightarrow>
        k = kind \<and> session_id d = session_id dto \<and> item_id d = item_id dto \<and>
        now - t0 < cooldown kind config)) \<longrightarrow>
    trackEvent_seq config parse retries st1 =
      (replicate (length retries) (Inl TooRecent), st1)) \<and>
   (trackEvent kind config parse t0 w0 ok0 dto st = (Inr ev, st1) \<and>
    tick - t0 < cooldown kind config \<and> tick' - t0 < cooldown kind config \<and>
    cooldown kind config \<le> RATE_LIMIT_WINDOW config \<longrightarrow>
    cacheOf kind (cleanupTick config tick tick' st1) (cacheKey dto) = Some t0 \<and>
    modelOf Impression (cleanupTick config tick tick' st1) = modelOf Impression st1 \<and>
    modelOf Click (cleanupTick config tick tick' st1) = modelOf Click st1)"
proof (intro conjI impI)
  assume a: "trackEvent kind config parse now wall ok dto st = (Inl err, st')"
  show "modelOf Impression st' = modelOf Impression st"
    using a by (rule trackEvent_rejected(2))
  show "modelOf Click st' = modelOf Click st"
    using a by (rule trackEvent_rejected(2))
  {
    assume "err = TooRecent \<or> err = AlreadyTracked"
    with a show "st' = st"
      by (rule trackEvent_rejected(1))
  }
  {
    assume "err = ValidationError \<or> err = StoreFailure"
    with a show "cacheOf kind st' = (cacheOf kind st)(cacheKey dto \<mapsto> now)"
      by (rule trackEvent_rejected_at_insert)
  }
next
  assume a: "trackEvent kind config parse t0 w0 ok0 dto st = (Inr ev, st1) \<and>
    (\<forall>q \<in> set retries. (case q of (k, now, wall, ok, d) \<Rightarrow>
        k = kind \<and> session_id d = session_id dto \<and> item_id d = item_id dto \<and>
        now - t0 < cooldown kind config))"
  then have "cacheOf kind st1 (cacheKey dto) = Some t0"
    by (auto intro: trackEvent_accepted_cache)
  with a show "trackEvent_seq config parse retries st1 =
      (replicate (length retries) (Inl TooRecent), st1)"
    by (simp add: retries_too_recent)
next
  assume a: "trackEvent kind config parse t0 w0 ok0 dto st = (Inr ev, st1) \<and>
    tick - t0 < cooldown kind config \<and> tick' - t0 < cooldown kind config \<and>
    cooldown kind config \<le> RATE_LIMIT_WINDOW config"
  then have c: "cacheOf kind st1 (cacheKey dto) = Some t0"
    by (auto intro: trackEvent_accepted_cache)
  from a have t: "tick - t0 < cooldown kind config" "tick' - t0 < cooldown kind config"
    "cooldown kind config \<le> RATE_LIMIT_WINDOW config"
    by simp_all
  show "cacheOf kind (cleanupTick config tick tick' st1) (cacheKey dto) = Some t0"
    using c t by (rule cleanupTick_keeps_recent(1))
  show "modelOf Impression (cleanupTick config tick tick' st1) = modelOf Impression st1"
    using c t by (rule cleanupTick_keeps_recent(2))
  show "modelOf Click (cleanupTick config tick tick' st1) = modelOf Click st1"
    using c t by (rule cleanupTick_keeps_recent(2))
qed

theorem rejection_effects_witness:
  "trackEvent_seq default_config (\<lambda>s. InvalidDate)
     [(Impression, 10000, 10000, True, sampleDto ''s1'' ''i1'' None),
      (Impression, 20000, 20000, True, sampleDto ''s1'' ''i1'' None)]
     (empty_state\<lparr>impressionCache := (\<lambda>k. None)(''s1_i1'' \<mapsto> 0),
                  impressionModel := [sampleEvent ''s1'' ''i1'' None (Instant 0)]\<rparr>) =
     ([Inl TooRecent, Inl TooRecent],
      empty_state\<lparr>impressionCache := (\<lambda>k. None)(''s1_i1'' \<mapsto> 0),
                  impressionModel := [sampleEvent ''s1'' ''i1'' None (Instant 0)]\<rparr>) \<and>
   cacheOf Impression
     (cleanupTick default_config 15000 15000
        (empty_state\<lparr>impressionCache := (\<lambda>k. None)(''s1_i1'' \<mapsto> 0),
                     impressionModel := [sampleEvent ''s1'' ''i1'' None (Instant 0)]\<rparr>))
     (cacheKey (sampleDto ''s1'' ''i1'' None)) = Some 0"
proof -
  let ?d = "sampleDto ''s1'' ''i1'' None"
  let ?st1 = "empty_state\<lparr>impressionCache := (\<lambda>k. None)(''s1_i1'' \<mapsto> 0),
                  impressionModel := [sampleEvent ''s1'' ''i1'' None (Instant 0)]\<rparr>"
  let ?retries = "[(Impression, 10000::int, 10000::int, True, ?d),
                   (Impression, 20000, 20000, True, ?d)]"
  have h: "trackEvent Impression default_config (\<lambda>s. InvalidDate) 0 0 True ?d empty_state =
             (Inr (sampleEvent ''s1'' ''i1'' None (Instant 0)), ?st1)"
    by (simp add: accepted_sample)
  have r: "\<forall>q \<in> set ?retries. (case q of (k, now, wall, ok, d) \<Rightarrow>
        k = Impression \<and> session_id d = session_id ?d \<and> item_id d = item_id ?d \<and>
        now - 0 < cooldown Impression default_config)"
    by (simp add: cooldown_def)
  have t: "15000 - 0 < cooldown Impression default_config"
    "cooldown Impression default_config \<le> RATE_LIMIT_WINDOW default_config"
    by (simp_all add: cooldown_def)
  note inst = rejection_effects[where kind = Impression and config = default_config
        and parse = "\<lambda>s. InvalidDate" and ?t0.0 = 0 and ?w0.0 = 0 and ?ok0.0 = True and dto = ?d
        and st = empty_state and ev = "sampleEvent ''s1'' ''i1'' None (Instant 0)"
        and ?st1.0 = ?st1 and retries = ?retries and tick = 15000 and tick' = 15000]
  from inst h r
  have "trackEvent_seq default_config (\<lambda>s. InvalidDate) ?retries ?st1 =
          (replicate (length ?retries) (Inl TooRecent), ?st1)"
    by blast
  also have "replicate (length ?retries) (Inl TooRecent) = [Inl TooRecent, Inl TooRecent]"
    by simp
  finally have a: "trackEvent_seq default_config (\<lambda>s. InvalidDate) ?retries ?st1 =
                     ([Inl TooRecent, Inl TooRecent], ?st1)" .
  from inst h t
  have b: "cacheOf Impression (cleanupTick default_config 15000 15000 ?st1) (cacheKey ?d) = Some 0"
    by blast
  from a b show ?thesis
    by (rule conjI)
qed

text \<open>
  C6 as stated fails: a submission that the insert refuses (here for a timestamp that
  does not parse), or whose insert fails, has written its cache entry.
\<close>

theorem rejection_at_insert_writes_cache:
  "trackImpression default_config sampleParse 0 0 True
     (sampleDto ''s1'' ''i1'' (Some ''not-a-date'')) empty_state =
     (Inl ValidationError, empty_state\<lparr>impressionCache := (\<lambda>k. None)(''s1_i1'' \<mapsto> 0)\<rparr>) \<and>
   trackImpression default_config sampleParse 0 0 False
     (sampleDto ''s1'' ''i1'' None) empty_state =
     (Inl StoreFailure, empty_state\<lparr>impressionCache := (\<lambda>k. None)(''s1_i1'' \<mapsto> 0)\<rparr>) \<and>
   impressionCache (empty_state\<lparr>impressionCache := (\<lambda>k. None)(''s1_i1'' \<mapsto> 0)\<rparr>) ''s1_i1'' =
     Some 0 \<and>
   impressionCache empty_state ''s1_i1'' = None"
  by (simp add: trackImpression_def trackImpression_check_def trackImpression_resume_def
      findImpressionBySessionAndItem_def createImpression_def validates_def eventData_def
      sampleParse_def empty_state_def sampleDto_def cacheKey_def Let_def)

section \<open>Batches\<close>

lemma cacheKey_eventData [simp]: "cacheKey (eventData parse wall d) = cacheKey d"
  by (simp add: cacheKey_def eventData_def)

lemma impressionsLoop_skip:
  "blocked (IMPRESSION_COOLDOWN config) now ex cache (cacheKey d) \<Longrightarrow>
   impressionsLoop config parse now wall ex (d # rest) cache =
   impressionsLoop config parse now wall ex rest cache"
  by (auto simp: blocked_def split: option.splits)

lemma impressionsLoop_take:
  "\<not> blocked (IMPRESSION_COOLDOWN config) now ex cache (cacheKey d) \<Longrightarrow>
   impressionsLoop config parse now wall ex (d # rest) cache =
   (eventData parse wall d #
      fst (impressionsLoop config parse now wall ex rest (cache(cacheKey d \<mapsto> now))),
    snd (impressionsLoop config parse now wall ex rest (cache(cacheKey d \<mapsto> now))))"
  by (auto simp: blocked_def split: option.splits prod.splits)

declare impressionsLoop.simps(2) [simp del]

lemma blocked_after_take:
  "0 < cd \<Longrightarrow> blocked cd now ex (cache(k \<mapsto> now)) k"
  by (simp add: blocked_def)

lemma blocked_other:
  "k' \<noteq> k \<Longrightarrow> blocked cd now ex (cache(k' \<mapsto> t)) k = blocked cd now ex cache k"
  by (simp add: blocked_def)

lemma impressionsLoop_subseq:
  "\<exists>ds. subseq ds imps \<and>
        fst (impressionsLoop config parse now wall ex imps cache) = map (eventData parse wall) ds"
proof (induction imps arbitrary: cache)
  case Nil
  then show ?case by simp
next
  case (Cons d imps)
  show ?case
  proof (cases "blocked (IMPRESSION_COOLDOWN config) now ex cache (cacheKey d)")
    case True
    from Cons.IH[of cache] obtain ds where "subseq ds imps"
      "fst (impressionsLoop config parse now wall ex imps cache) = map (eventData parse wall) ds"
      by blast
    then have "subseq ds (d # imps) \<and>
        fst (impressionsLoop config parse now wall ex (d # imps) cache) = map (eventData parse wall) ds"
      by (simp add: impressionsLoop_skip[OF True] list_emb_Cons)
    then show ?thesis by blast
  next
    case False
    from Cons.IH[of "cache(cacheKey d \<mapsto> now)"] obtain ds where "subseq ds imps"
      "fst (impressionsLoop config parse now wall ex imps (cache(cacheKey d \<mapsto> now))) =
         map (eventData parse wall) ds"
      by blast
    then have "subseq (d # ds) (d # imps) \<and>
        fst (impressionsLoop config parse now wall ex (d # imps) cache) =
          map (eventData parse wall) (d # ds)"
      by (simp add: impressionsLoop_take[OF False])
    then show ?thesis by blast
  qed
qed

lemma impressionsLoop_blocked_drop:
  "blocked (IMPRESSION_COOLDOWN config) now ex cache (cacheKey d) \<Longrightarrow>
   impressionsLoop config parse now wall ex (pre @ d # post) cache =
   impressionsLoop config parse now wall ex (pre @ post) cache"
proof (induction pre arbitrary: cache)
  case Nil
  then show ?case by (simp only: append_Nil impressionsLoop_skip)
next
  case (Cons x pre)
  show ?case
  proof (cases "blocked (IMPRESSION_COOLDOWN config) now ex cache (cacheKey x)")
    case True
    then show ?thesis
      using Cons.IH[OF Cons.prems] by (simp only: append_Cons impressionsLoop_skip)
  next
    case False
    with Cons.prems have "cacheKey x \<noteq> cacheKey d" by auto
    with Cons.prems have
      "blocked (IMPRESSION_COOLDOWN config) now ex (cache(cacheKey x \<mapsto> now)) (cacheKey d)"
      by (simp add: blocked_other)
    from Cons.IH[OF this] show ?thesis
      by (simp only: append_Cons impressionsLoop_take[OF False])
  qed
qed

lemma impressionsLoop_duplicate_drop:
  assumes "0 < IMPRESSION_COOLDOWN config"
    and "d' \<in> set pre" and "cacheKey d' = cacheKey d"
  shows "impressionsLoop config parse now wall ex (pre @ d # post) cache =
         impressionsLoop config parse now wall ex (pre @ post) cache"
  using assms(2)
proof (induction pre arbitrary: cache)
  case Nil
  then show ?case by simp
next
  case (Cons x pre)
  show ?case
  proof (cases "blocked (IMPRESSION_COOLDOWN config) now ex cache (cacheKey x)")
    case True
    show ?thesis
    proof (cases "cacheKey x = cacheKey d")
      case same: True
      with True have "blocked (IMPRESSION_COOLDOWN config) now ex cache (cacheKey d)" by simp
      from impressionsLoop_blocked_drop[OF this] show ?thesis
        by (simp only: append_Cons impressionsLoop_skip[OF True])
    next
      case False
      with Cons.prems assms(3) have "d' \<in> set pre" by auto
      from Cons.IH[OF this] show ?thesis
        by (simp only: append_Cons impressionsLoop_skip[OF True])
    qed
  next
    case False
    show ?thesis
    proof (cases "cacheKey x = cacheKey d")
      case same: True
      have "blocked (IMPRESSION_COOLDOWN config) now ex (cache(cacheKey x \<mapsto> now)) (cacheKey d)"
        unfolding same[symmetric] using assms(1) by (rule blocked_after_take)
      from impressionsLoop_blocked_drop[OF this] show ?thesis
        by (simp only: append_Cons impressionsLoop_take[OF False])
    next
      case diff: False
      with Cons.prems assms(3) have "d' \<in> set pre" by auto
      from Cons.IH[OF this] show ?thesis
        by (simp only: append_Cons impressionsLoop_take[OF False])
    qed
  qed
qed

lemma impressionsLoop_distinct:
  assumes "0 < IMPRESSION_COOLDOWN config"
  shows "distinct (map cacheKey (fst (impressionsLoop config parse now wall ex imps cache))) \<and>
         (\<forall>e \<in> set (fst (impressionsLoop config parse now wall ex imps cache)).
            \<not> blocked (IMPRESSION_COOLDOWN config) now ex cache (cacheKey e))"
proof (induction imps arbitrary: cache)
  case Nil
  then show ?case by simp
next
  case (Cons d imps)
  show ?case
  proof (cases "blocked (IMPRESSION_COOLDOWN config) now ex cache (cacheKey d)")
    case True
    then show ?thesis
      using Cons.IH[of cache] by (simp add: impressionsLoop_skip[OF True])
  next
    case False
    let ?c = "cache(cacheKey d \<mapsto> now)"
    let ?v = "fst (impressionsLoop config parse now wall ex imps ?c)"
    have ih: "distinct (map cacheKey ?v)"
      "\<forall>e \<in> set ?v. \<not> blocked (IMPRESSION_COOLDOWN config) now ex ?c (cacheKey e)"
      using Cons.IH[of ?c] by blast+
    have b: "blocked (IMPRESSION_COOLDOWN config) now ex ?c (cacheKey d)"
      using assms by (rule blocked_after_take)
    have notin: "cacheKey d \<notin> cacheKey ` set ?v"
      using ih(2) b by auto
    have others: "\<forall>e \<in> set ?v. \<not> blocked (IMPRESSION_COOLDOWN config) now ex cache (cacheKey e)"
    proof
      fix e assume e: "e \<in> set ?v"
      with notin have "cacheKey d \<noteq> cacheKey e" by auto
      then have "blocked (IMPRESSION_COOLDOWN config) now ex ?c (cacheKey e) =
                 blocked (IMPRESSION_COOLDOWN config) now ex cache (cacheKey e)"
        by (rule blocked_other)
      with ih(2) e show "\<not> blocked (IMPRESSION_COOLDOWN config) now ex cache (cacheKey e)"
        by simp
    qed
    have v: "fst (impressionsLoop config parse now wall ex (d # imps) cache) =
               eventData parse wall d # ?v"
      by (simp add: impressionsLoop_take[OF False])
    show ?thesis
      unfolding v using ih(1) notin others False by simp
  qed
qed

lemma clicksLoop_impressionsLoop:
  "clicksLoop config parse now wall ex cs cache =
   impressionsLoop (config\<lparr>IMPRESSION_COOLDOWN := CLICK_COOLDOWN config\<rparr>) parse now wall ex cs cache"
  by (induction cs arbitrary: cache) (simp_all add: impressionsLoop.simps(2) cong: option.case_cong)

lemma findExistingImpressions_pairs:
  "set ps = set qs \<Longrightarrow> findExistingImpressions st ps t = findExistingImpressions st qs t"
  by (simp add: findExistingImpressions_def list_ex_iff)

lemma findExistingClicks_pairs:
  "set ps = set qs \<Longrightarrow> findExistingClicks st ps t = findExistingClicks st qs t"
  by (simp add: findExistingClicks_def list_ex_iff)

lemma duplicate_pairs:
  assumes "d' \<in> set pre" and "session_id d' = session_id d" and "item_id d' = item_id d"
  shows "set (map (\<lambda>x. (session_id x, item_id x)) (pre @ d # post)) =
         set (map (\<lambda>x. (session_id x, item_id x)) (pre @ post))"
proof -
  have "(session_id d, item_id d) \<in> (\<lambda>x. (session_id x, item_id x)) ` set pre"
  proof (rule image_eqI[where x = d'])
    show "(session_id d, item_id d) = (session_id d', item_id d')"
      using assms(2,3) by simp
    show "d' \<in> set pre"
      by (rule assms(1))
  qed
  then show ?thesis by auto
qed

lemma trackImpressionsBatch_duplicate:
  assumes "0 < IMPRESSION_COOLDOWN config"
    and "d' \<in> set pre" and "session_id d' = session_id d" and "item_id d' = item_id d"
  shows "trackImpressionsBatch config parse now wall ok (pre @ d # post) st =
         trackImpressionsBatch config parse now wall ok (pre @ post) st"
proof -
  have k: "cacheKey d' = cacheKey d"
    using assms(3,4) by (rule cacheKey_same)
  have ne: "pre \<noteq> []"
    using assms(2) by auto
  have p: "findExistingImpressions st (map (\<lambda>x. (session_id x, item_id x)) (pre @ d # post))
             (now - RATE_LIMIT_WINDOW config) =
           findExistingImpressions st (map (\<lambda>x. (session_id x, item_id x)) (pre @ post))
             (now - RATE_LIMIT_WINDOW config)"
    using duplicate_pairs[OF assms(2,3,4)] by (rule findExistingImpressions_pairs)
  show ?thesis
    unfolding trackImpressionsBatch_def Let_def p
    using ne by (simp add: impressionsLoop_duplicate_drop[OF assms(1,2) k])
qed

lemma trackClicksBatch_duplicate:
  assumes "0 < CLICK_COOLDOWN config"
    and "d' \<in> set pre" and "session_id d' = session_id d" and "item_id d' = item_id d"
  shows "trackClicksBatch config parse now wall ok (pre @ d # post) st =
         trackClicksBatch config parse now wall ok (pre @ post) st"
proof -
  have k: "cacheKey d' = cacheKey d"
    using assms(3,4) by (rule cacheKey_same)
  have ne: "pre \<noteq> []"
    using assms(2) by auto
  have c: "0 < IMPRESSION_COOLDOWN (config\<lparr>IMPRESSION_COOLDOWN := CLICK_COOLDOWN config\<rparr>)"
    using assms(1) by simp
  have p: "findExistingClicks st (map (\<lambda>x. (session_id x, item_id x)) (pre @ d # post))
             (now - RATE_LIMIT_WINDOW config) =
           findExistingClicks st (map (\<lambda>x. (session_id x, item_id x)) (pre @ post))
             (now - RATE_LIMIT_WINDOW config)"
    using duplicate_pairs[OF assms(2,3,4)] by (rule findExistingClicks_pairs)
  show ?thesis
    unfolding trackClicksBatch_def Let_def p clicksLoop_impressionsLoop
    using ne by (simp add: impressionsLoop_duplicate_drop[OF c assms(2) k])
qed

lemma distinct_keys:
  "distinct (map cacheKey evs) \<Longrightarrow> distinct (map (\<lambda>e. (session_id e, item_id e)) evs)"
  by (induction evs) (auto simp: cacheKey_def)

lemma trackImpressionsBatch_distinct:
  assumes "0 < IMPRESSION_COOLDOWN config"
    and "fst (trackImpressionsBatch config parse now wall ok imps st) = Inr evs"
  shows "distinct (map (\<lambda>e. (session_id e, item_id e)) evs)"
proof -
  let ?ex = "set (map cacheKey (findExistingImpressions st
                 (map (\<lambda>imp. (session_id imp, item_id imp)) imps) (now - RATE_LIMIT_WINDOW config)))"
  let ?v = "fst (impressionsLoop config parse now wall ?ex imps (impressionCache st))"
  have d: "distinct (map (\<lambda>e. (session_id e, item_id e)) ?v)"
    using impressionsLoop_distinct[OF assms(1)] by (blast intro: distinct_keys)
  have "evs = [] \<or> evs = map (\<lambda>d. d\<lparr>position_in_results := None\<rparr>) ?v"
    using assms(2)
    by (auto simp: trackImpressionsBatch_def Let_def createImpressionsBatch_def
             split: if_splits prod.splits)
  then show ?thesis
  proof
    assume "evs = []" then show ?thesis by simp
  next
    assume "evs = map (\<lambda>d. d\<lparr>position_in_results := None\<rparr>) ?v"
    with d show ?thesis by (simp add: comp_def)
  qed
qed

lemma trackClicksBatch_distinct:
  assumes "0 < CLICK_COOLDOWN config"
    and "fst (trackClicksBatch config parse now wall ok cs st) = Inr evs"
  shows "distinct (map (\<lambda>e. (session_id e, item_id e)) evs)"
proof -
  let ?ex = "set (map cacheKey (findExistingClicks st
                 (map (\<lambda>c. (session_id c, item_id c)) cs) (now - RATE_LIMIT_WINDOW config)))"
  let ?v = "fst (clicksLoop config parse now wall ?ex cs (clickCache st))"
  have c: "0 < IMPRESSION_COOLDOWN (config\<lparr>IMPRESSION_COOLDOWN := CLICK_COOLDOWN config\<rparr>)"
    using assms(1) by simp
  have d: "distinct (map (\<lambda>e. (session_id e, item_id e)) ?v)"
    unfolding clicksLoop_impressionsLoop
    using impressionsLoop_distinct[OF c] by (blast intro: distinct_keys)
  have "evs = [] \<or> evs = ?v"
    using assms(2)
    by (auto simp: trackClicksBatch_def Let_def createClicksBatch_def
             split: if_splits prod.splits)
  with d show ?thesis by auto
qed

text \<open>
  C4, as the code has it. With a positive cooldown of the kind, an input of a batch whose
  session and item an earlier input of the batch has is skipped: the batch does what it
  does without that input, so of the inputs of one key only the earliest can be accepted.
  The accepted events of a batch have pairwise different session and item.
\<close>

theorem intra_batch_duplicates:
  assumes "0 < cooldown kind config"
    and "d' \<in> set pre" and "session_id d' = session_id d" and "item_id d' = item_id d"
  shows "trackBatch kind config parse now wall ok (pre @ d # post) st =
           trackBatch kind config parse now wall ok (pre @ post) st \<and>
         (case fst (trackBatch kind config parse now wall ok dtos st) of
            Inl err \<Rightarrow> True
          | Inr evs \<Rightarrow> distinct (map (\<lambda>e. (session_id e, item_id e)) evs))"
proof (cases kind)
  case Impression
  with assms(1) have c: "0 < IMPRESSION_COOLDOWN config"
    by (simp add: cooldown_def)
  show ?thesis
    unfolding Impression trackBatch_def
    using trackImpressionsBatch_duplicate[OF c assms(2,3,4)] trackImpressionsBatch_distinct[OF c]
    by (auto split: sum.splits)
next
  case Click
  with assms(1) have c: "0 < CLICK_COOLDOWN config"
    by (simp add: cooldown_def)
  show ?thesis
    unfolding Click trackBatch_def
    using trackClicksBatch_duplicate[OF c assms(2,3,4)] trackClicksBatch_distinct[OF c]
    by (auto split: sum.splits)
qed


theorem intra_batch_duplicates_witness:
  "trackBatch Impression default_config (\<lambda>s. InvalidDate) 0 0 True
     ([sampleDto ''s1'' ''i1'' None] @ sampleDto ''s1'' ''i1'' (Some ''x'') # []) empty_state =
   trackBatch Impression default_config (\<lambda>s. InvalidDate) 0 0 True
     ([sampleDto ''s1'' ''i1'' None] @ []) empty_state \<and>
   trackBatch Impression default_config (\<lambda>s. InvalidDate) 0 0 True
     [sampleDto ''s1'' ''i1'' None] empty_state =
   (Inr [sampleEvent ''s1'' ''i1'' None (Instant 0)],
    empty_state\<lparr>impressionCache := (\<lambda>k. None)(''s1_i1'' \<mapsto> 0),
                impressionModel := [sampleEvent ''s1'' ''i1'' None (Instant 0)]\<rparr>)"
proof -
  have c: "0 < cooldown Impression default_config"
    by (simp add: cooldown_def)
  have m: "sampleDto ''s1'' ''i1'' None \<in> set [sampleDto ''s1'' ''i1'' None]"
    by simp
  have s: "session_id (sampleDto ''s1'' ''i1'' None) = session_id (sampleDto ''s1'' ''i1'' (Some ''x''))"
    "item_id (sampleDto ''s1'' ''i1'' None) = item_id (sampleDto ''s1'' ''i1'' (Some ''x''))"
    by (simp_all add: sampleDto_def)
  have r: "trackBatch Impression default_config (\<lambda>s. InvalidDate) 0 0 True
             [sampleDto ''s1'' ''i1'' None] empty_state =
           (Inr [sampleEvent ''s1'' ''i1'' None (Instant 0)],
            empty_state\<lparr>impressionCache := (\<lambda>k. None)(''s1_i1'' \<mapsto> 0),
                        impressionModel := [sampleEvent ''s1'' ''i1'' None (Instant 0)]\<rparr>)"
    by (simp add: trackBatch_def trackImpressionsBatch_def findExistingImpressions_def
        impressionsLoop.simps(2) createImpressionsBatch_def validates_def empty_state_def
        sampleDto_def sampleEvent_def eventData_def cacheKey_def Let_def)
  from intra_batch_duplicates[OF c m s, where parse = "\<lambda>s. InvalidDate" and now = 0 and wall = 0
      and ok = True and post = "[]" and st = empty_state and dtos = "[]"] r
  show ?thesis
    by simp
qed

text \<open>
  C4 as stated fails: with the cooldown set to 0 the cache entry that the first input
  wrote does not stop the second, and the events found in the store were read before the
  loop; both inputs of the key are accepted and stored.
\<close>

theorem zero_cooldown_accepts_duplicates:
  "trackImpressionsBatch (default_config\<lparr>IMPRESSION_COOLDOWN := 0\<rparr>) sampleParse 0 0 True
     [sampleDto ''s1'' ''i1'' None, sampleDto ''s1'' ''i1'' None] empty_state =
   (Inr [sampleEvent ''s1'' ''i1'' None (Instant 0), sampleEvent ''s1'' ''i1'' None (Instant 0)],
    empty_state\<lparr>impressionCache := (\<lambda>k. None)(''s1_i1'' \<mapsto> 0),
                impressionModel := [sampleEvent ''s1'' ''i1'' None (Instant 0),
                                    sampleEvent ''s1'' ''i1'' None (Instant 0)]\<rparr>)"
  by (simp add: trackImpressionsBatch_def findExistingImpressions_def impressionsLoop.simps(2)
      createImpressionsBatch_def validates_def empty_state_def sampleDto_def sampleEvent_def
      eventData_def cacheKey_def default_config_def Let_def)

lemma trackImpressionsBatch_result:
  "\<exists>ds. subseq ds imps \<and>
     ((ds = [] \<or> ok \<and> list_all validates (map (eventData parse wall) ds) \<longrightarrow>
        fst (trackImpressionsBatch config parse now wall ok imps st) =
          Inr (map (\<lambda>d. (eventData parse wall d)\<lparr>position_in_results := None\<rparr>) ds) \<and>
        impressionModel (snd (trackImpressionsBatch config parse now wall ok imps st)) =
          impressionModel st @
            map (\<lambda>d. (eventData parse wall d)\<lparr>position_in_results := None\<rparr>) ds) \<and>
      (\<not> (ds = [] \<or> ok \<and> list_all validates (map (eventData parse wall) ds)) \<longrightarrow>
        (\<exists>err. fst (trackImpressionsBatch config parse now wall ok imps st) = Inl err) \<and>
        impressionModel (snd (trackImpressionsBatch config parse now wall ok imps st)) =
          impressionModel st))"
proof -
  let ?ex = "set (map cacheKey (findExistingImpressions st
                 (map (\<lambda>imp. (session_id imp, item_id imp)) imps) (now - RATE_LIMIT_WINDOW config)))"
  let ?f = "\<lambda>d. (eventData parse wall d)\<lparr>position_in_results := None\<rparr>"
  let ?R = "trackImpressionsBatch config parse now wall ok imps st"
  obtain ds where ds: "subseq ds imps"
    "fst (impressionsLoop config parse now wall ?ex imps (impressionCache st)) =
       map (eventData parse wall) ds"
    using impressionsLoop_subseq by blast
  have v: "list_all validates (map (\<lambda>d. d\<lparr>position_in_results := None\<rparr>)
             (map (eventData parse wall) ds)) =
           list_all validates (map (eventData parse wall) ds)"
    by (simp add: list_all_iff validates_def)
  have "(ds = [] \<or> ok \<and> list_all validates (map (eventData parse wall) ds) \<longrightarrow>
        fst ?R = Inr (map ?f ds) \<and> impressionModel (snd ?R) = impressionModel st @ map ?f ds) \<and>
      (\<not> (ds = [] \<or> ok \<and> list_all validates (map (eventData parse wall) ds)) \<longrightarrow>
        (\<exists>err. fst ?R = Inl err) \<and> impressionModel (snd ?R) = impressionModel st)"
  proof (cases "imps = []")
    case True
    with ds(1) show ?thesis by (simp add: trackImpressionsBatch_def)
  next
    case False
    then show ?thesis
      using ds(2) v
      by (auto simp: trackImpressionsBatch_def Let_def createImpressionsBatch_def comp_def
               split: prod.splits)
  qed
  with ds(1) show ?thesis by blast
qed

lemma trackClicksBatch_result:
  "\<exists>ds. subseq ds cs \<and>
     ((ds = [] \<or> ok \<and> list_all validates (map (eventData parse wall) ds) \<longrightarrow>
        fst (trackClicksBatch config parse now wall ok cs st) =
          Inr (map (eventData parse wall) ds) \<and>
        clickModel (snd (trackClicksBatch config parse now wall ok cs st)) =
          clickModel st @ map (eventData parse wall) ds) \<and>
      (\<not> (ds = [] \<or> ok \<and> list_all validates (map (eventData parse wall) ds)) \<longrightarrow>
        (\<exists>err. fst (trackClicksBatch config parse now wall ok cs st) = Inl err) \<and>
        clickModel (snd (trackClicksBatch config parse now wall ok cs st)) = clickModel st))"
proof -
  let ?ex = "set (map cacheKey (findExistingClicks st
                 (map (\<lambda>c. (session_id c, item_id c)) cs) (now - RATE_LIMIT_WINDOW config)))"
  let ?R = "trackClicksBatch config parse now wall ok cs st"
  obtain ds where ds: "subseq ds cs"
    "fst (clicksLoop config parse now wall ?ex cs (clickCache st)) = map (eventData parse wall) ds"
    unfolding clicksLoop_impressionsLoop using impressionsLoop_subseq by blast
  have "(ds = [] \<or> ok \<and> list_all validates (map (eventData parse wall) ds) \<longrightarrow>
        fst ?R = Inr (map (eventData parse wall) ds) \<and>
        clickModel (snd ?R) = clickModel st @ map (eventData parse wall) ds) \<and>
      (\<not> (ds = [] \<or> ok \<and> list_all validates (map (eventData parse wall) ds)) \<longrightarrow>
        (\<exists>err. fst ?R = Inl err) \<and> clickModel (snd ?R) = clickModel st)"
  proof (cases "cs = []")
    case True
    with ds(1) show ?thesis by (simp add: trackClicksBatch_def)
  next
    case False
    then show ?thesis
      using ds(2)
      by (auto simp: trackClicksBatch_def Let_def createClicksBatch_def split: prod.splits)
  qed
  with ds(1) show ?thesis by blast
qed

text \<open>
  C3, as the code has it. The loop of a batch accepts some of the inputs, in input order,
  and skips the others. When the insert of the accepted ones succeeds (there is none to
  insert, or the store takes them and each validates), the batch returns the events it
  stored: one for each accepted input, in input order, and nothing for a skipped input.
  The result is as long as the input only when every input is accepted. When the insert
  does not succeed the batch raises and stores nothing. An empty batch returns the empty
  list and changes nothing.
\<close>

theorem batch_returns_accepted_events:
  "(\<exists>ds. subseq ds imps \<and> length ds \<le> length imps \<and>
     ((ds = [] \<or> ok \<and> list_all validates (map (eventData parse wall) ds) \<longrightarrow>
        fst (trackImpressionsBatch config parse now wall ok imps st) =
          Inr (map (\<lambda>d. (eventData parse wall d)\<lparr>position_in_results := None\<rparr>) ds) \<and>
        impressionModel (snd (trackImpressionsBatch config parse now wall ok imps st)) =
          impressionModel st @
            map (\<lambda>d. (eventData parse wall d)\<lparr>position_in_results := None\<rparr>) ds) \<and>
      (\<not> (ds = [] \<or> ok \<and> list_all validates (map (eventData parse wall) ds)) \<longrightarrow>
        (\<exists>err. fst (trackImpressionsBatch config parse now wall ok imps st) = Inl err) \<and>
        impressionModel (snd (trackImpressionsBatch config parse now wall ok imps st)) =
          impressionModel st))) \<and>
   (\<exists>ds. subseq ds cs \<and> length ds \<le> length cs \<and>
     ((ds = [] \<or> ok \<and> list_all validates (map (eventData parse wall) ds) \<longrightarrow>
        fst (trackClicksBatch config parse now wall ok cs st) =
          Inr (map (eventData parse wall) ds) \<and>
        clickModel (snd (trackClicksBatch config parse now wall ok cs st)) =
          clickModel st @ map (eventData parse wall) ds) \<and>
      (\<not> (ds = [] \<or> ok \<and> list_all validates (map (eventData parse wall) ds)) \<longrightarrow>
        (\<exists>err. fst (trackClicksBatch config parse now wall ok cs st) = Inl err) \<and>
        clickModel (snd (trackClicksBatch config parse now wall ok cs st)) = clickModel st))) \<and>
   trackImpressionsBatch config parse now wall ok [] st = (Inr [], st) \<and>
   trackClicksBatch config parse now wall ok [] st = (Inr [], st)"
proof (intro conjI)
  show "trackImpressionsBatch config parse now wall ok [] st = (Inr [], st)"
    by (simp add: trackImpressionsBatch_def)
  show "trackClicksBatch config parse now wall ok [] st = (Inr [], st)"
    by (simp add: trackClicksBatch_def)
next
  from trackImpressionsBatch_result[of imps ok parse wall config now st]
  obtain ds where ds: "subseq ds imps"
    and r: "(ds = [] \<or> ok \<and> list_all validates (map (eventData parse wall) ds) \<longrightarrow>
        fst (trackImpressionsBatch config parse now wall ok imps st) =
          Inr (map (\<lambda>d. (eventData parse wall d)\<lparr>position_in_results := None\<rparr>) ds) \<and>
        impressionModel (snd (trackImpressionsBatch config parse now wall ok imps st)) =
          impressionModel st @
            map (\<lambda>d. (eventData parse wall d)\<lparr>position_in_results := None\<rparr>) ds) \<and>
      (\<not> (ds = [] \<or> ok \<and> list_all validates (map (eventData parse wall) ds)) \<longrightarrow>
        (\<exists>err. fst (trackImpressionsBatch config parse now wall ok imps st) = Inl err) \<and>
        impressionModel (snd (trackImpressionsBatch config parse now wall ok imps st)) =
          impressionModel st)"
    by blast
  have "length ds \<le> length imps"
    using ds by (rule list_emb_length)
  with ds r show "\<exists>ds. subseq ds imps \<and> length ds \<le> length imps \<and>
     ((ds = [] \<or> ok \<and> list_all validates (map (eventData parse wall) ds) \<longrightarrow>
        fst (trackImpressionsBatch config parse now wall ok imps st) =
          Inr (map (\<lambda>d. (eventData parse wall d)\<lparr>position_in_results := None\<rparr>) ds) \<and>
        impressionModel (snd (trackImpressionsBatch config parse now wall ok imps st)) =
          impressionModel st @
            map (\<lambda>d. (eventData parse wall d)\<lparr>position_in_results := None\<rparr>) ds) \<and>
      (\<not> (ds = [] \<or> ok \<and> list_all validates (map (eventData parse wall) ds)) \<longrightarrow>
        (\<exists>err. fst (trackImpressionsBatch config parse now wall ok imps st) = Inl err) \<and>
        impressionModel (snd (trackImpressionsBatch config parse now wall ok imps st)) =
          impressionModel st))"
    by blast
next
  from trackClicksBatch_result[of cs ok parse wall config now st]
  obtain ds where ds: "subseq ds cs"
    and r: "(ds = [] \<or> ok \<and> list_all validates (map (eventData parse wall) ds) \<longrightarrow>
        fst (trackClicksBatch config parse now wall ok cs st) =
          Inr (map (eventData parse wall) ds) \<and>
        clickModel (snd (trackClicksBatch config parse now wall ok cs st)) =
          clickModel st @ map (eventData parse wall) ds) \<and>
      (\<not> (ds = [] \<or> ok \<and> list_all validates (map (eventData parse wall) ds)) \<longrightarrow>
        (\<exists>err. fst (trackClicksBatch config parse now wall ok cs st) = Inl err) \<and>
        clickModel (snd (trackClicksBatch config parse now wall ok cs st)) = clickModel st)"
    by blast
  have "length ds \<le> length cs"
    using ds by (rule list_emb_length)
  with ds r show "\<exists>ds. subseq ds cs \<and> length ds \<le> length cs \<and>
     ((ds = [] \<or> ok \<and> list_all validates (map (eventData parse wall) ds) \<longrightarrow>
        fst (trackClicksBatch config parse now wall ok cs st) =
          Inr (map (eventData parse wall) ds) \<and>
        clickModel (snd (trackClicksBatch config parse now wall ok cs st)) =
          clickModel st @ map (eventData parse wall) ds) \<and>
      (\<not> (ds = [] \<or> ok \<and> list_all validates (map (eventData parse wall) ds)) \<longrightarrow>
        (\<exists>err. fst (trackClicksBatch config parse now wall ok cs st) = Inl err) \<and>
        clickModel (snd (trackClicksBatch config parse now wall ok cs st)) = clickModel st))"
    by blast
qed

text \<open>C3 as stated fails: a batch of two inputs of one key returns one event.\<close>

theorem batch_result_is_shorter:
  "trackImpressionsBatch default_config (\<lambda>s. InvalidDate) 0 0 True
     [sampleDto ''s1'' ''i1'' None, sampleDto ''s1'' ''i1'' None] empty_state =
   (Inr [sampleEvent ''s1'' ''i1'' None (Instant 0)],
    empty_state\<lparr>impressionCache := (\<lambda>k. None)(''s1_i1'' \<mapsto> 0),
                impressionModel := [sampleEvent ''s1'' ''i1'' None (Instant 0)]\<rparr>) \<and>
   length [sampleDto ''s1'' ''i1'' None, sampleDto ''s1'' ''i1'' None] = 2"
  by (simp add: trackImpressionsBatch_def findExistingImpressions_def impressionsLoop.simps(2)
      createImpressionsBatch_def validates_def empty_state_def sampleDto_def sampleEvent_def
      eventData_def cacheKey_def Let_def)

lemma two_same_key_batch:
  "fst (trackImpressionsBatch default_config (\<lambda>s. InvalidDate) 0 0 True
     [sampleDto ''s1'' ''i1'' None, sampleDto ''s1'' ''i1'' None] empty_state) =
   Inr [sampleEvent ''s1'' ''i1'' None (Instant 0)]"
  by (simp add: trackImpressionsBatch_def findExistingImpressions_def impressionsLoop.simps(2)
      createImpressionsBatch_def validates_def empty_state_def sampleDto_def sampleEvent_def
      eventData_def cacheKey_def Let_def)

theorem batch_returns_accepted_events_witness:
  "(\<exists>ds. subseq ds [sampleDto ''s1'' ''i1'' None, sampleDto ''s1'' ''i1'' None] \<and>
      length ds \<le> length [sampleDto ''s1'' ''i1'' None, sampleDto ''s1'' ''i1'' None] \<and>
      fst (trackImpressionsBatch default_config (\<lambda>s. InvalidDate) 0 0 True
             [sampleDto ''s1'' ''i1'' None, sampleDto ''s1'' ''i1'' None] empty_state) =
        Inr (map (\<lambda>d. (eventData (\<lambda>s. InvalidDate) 0 d)\<lparr>position_in_results := None\<rparr>) ds) \<and>
      impressionModel (snd (trackImpressionsBatch default_config (\<lambda>s. InvalidDate) 0 0 True
             [sampleDto ''s1'' ''i1'' None, sampleDto ''s1'' ''i1'' None] empty_state)) =
        impressionModel empty_state @
          map (\<lambda>d. (eventData (\<lambda>s. InvalidDate) 0 d)\<lparr>position_in_results := None\<rparr>) ds) \<and>
   trackClicksBatch default_config (\<lambda>s. InvalidDate) 0 0 True [] empty_state = (Inr [], empty_state)"
  using batch_returns_accepted_events[where imps = "[sampleDto ''s1'' ''i1'' None, sampleDto ''s1'' ''i1'' None]"
      and config = default_config and parse = "\<lambda>s. InvalidDate" and now = 0 and wall = 0
      and st = empty_state and cs = "[]" and ok = True] two_same_key_batch
  by (metis sum.distinct(1))

section \<open>Timestamps\<close>

lemma trackImpressionsBatch_frame:
  "clickModel (snd (trackImpressionsBatch config parse now wall ok imps st)) = clickModel st"
  by (simp add: trackImpressionsBatch_def createImpressionsBatch_def Let_def split: prod.splits)

lemma trackClicksBatch_frame:
  "impressionModel (snd (trackClicksBatch config parse now wall ok cs st)) = impressionModel st"
  by (simp add: trackClicksBatch_def createClicksBatch_def Let_def split: prod.splits)

lemma trackImpressionsBatch_stores_valid:
  "\<exists>docs. impressionModel (snd (trackImpressionsBatch config parse now wall ok imps st)) =
            impressionModel st @ docs \<and> list_all validates docs"
proof -
  let ?f = "\<lambda>d. (eventData parse wall d)\<lparr>position_in_results := None\<rparr>"
  let ?M = "impressionModel (snd (trackImpressionsBatch config parse now wall ok imps st))"
  from trackImpressionsBatch_result[of imps ok parse wall config now st]
  obtain ds where r:
    "ds = [] \<or> ok \<and> list_all validates (map (eventData parse wall) ds) \<longrightarrow>
       ?M = impressionModel st @ map ?f ds"
    "\<not> (ds = [] \<or> ok \<and> list_all validates (map (eventData parse wall) ds)) \<longrightarrow>
       ?M = impressionModel st"
    by blast
  have v: "list_all validates (map (eventData parse wall) ds) \<Longrightarrow> list_all validates (map ?f ds)"
    by (simp add: list_all_iff validates_def)
  show ?thesis
  proof (cases "ds = [] \<or> ok \<and> list_all validates (map (eventData parse wall) ds)")
    case True
    with r(1) have "?M = impressionModel st @ map ?f ds"
      by blast
    moreover from True v have "list_all validates (map ?f ds)"
      by auto
    ultimately show ?thesis
      by blast
  next
    case False
    with r(2) have "?M = impressionModel st @ []"
      by simp
    then show ?thesis
      by (intro exI[of _ "[]"]) simp
  qed
qed

lemma trackClicksBatch_stores_valid:
  "\<exists>docs. clickModel (snd (trackClicksBatch config parse now wall ok cs st)) =
            clickModel st @ docs \<and> list_all validates docs"
proof -
  let ?M = "clickModel (snd (trackClicksBatch config parse now wall ok cs st))"
  from trackClicksBatch_result[of cs ok parse wall config now st]
  obtain ds where r:
    "ds = [] \<or> ok \<and> list_all validates (map (eventData parse wall) ds) \<longrightarrow>
       ?M = clickModel st @ map (eventData parse wall) ds"
    "\<not> (ds = [] \<or> ok \<and> list_all validates (map (eventData parse wall) ds)) \<longrightarrow>
       ?M = clickModel st"
    by blast
  show ?thesis
  proof (cases "ds = [] \<or> ok \<and> list_all validates (map (eventData parse wall) ds)")
    case True
    with r(1) have "?M = clickModel st @ map (eventData parse wall) ds"
      by blast
    moreover from True have "list_all validates (map (eventData parse wall) ds)"
      by auto
    ultimately show ?thesis
      by blast
  next
    case False
    with r(2) have "?M = clickModel st @ []"
      by simp
    then show ?thesis
      by (intro exI[of _ "[]"]) simp
  qed
qed

text \<open>What a batch of either kind adds to the collections.\<close>

lemma trackBatch_stores_valid:
  "(\<exists>docs. modelOf kind (snd (trackBatch kind config parse now wall ok dtos st)) =
             modelOf kind st @ docs \<and> list_all validates docs) \<and>
   (\<forall>k. k \<noteq> kind \<longrightarrow>
      modelOf k (snd (trackBatch kind config parse now wall ok dtos st)) = modelOf k st)"
proof (cases kind)
  case Impression
  then show ?thesis
    using trackImpressionsBatch_stores_valid[of config parse now wall ok dtos st]
      trackImpressionsBatch_frame[of config parse now wall ok dtos st]
    by (auto simp: trackBatch_def modelOf_def dest: other_kind(1)[OF _ refl])
next
  case Click
  then show ?thesis
    using trackClicksBatch_stores_valid[of config parse now wall ok dtos st]
      trackClicksBatch_frame[of config parse now wall ok dtos st]
    by (auto simp: trackBatch_def modelOf_def dest: other_kind(2)[OF _ refl])
qed

text \<open>What a single submission of either kind adds to the collections.\<close>

lemma trackEvent_stores_valid:
  "(\<exists>docs. modelOf kind (snd (trackEvent kind config parse now wall ok dto st)) =
             modelOf kind st @ docs \<and> list_all validates docs) \<and>
   (\<forall>k. k \<noteq> kind \<longrightarrow>
      modelOf k (snd (trackEvent kind config parse now wall ok dto st)) = modelOf k st)"
proof -
  obtain r st' where e: "trackEvent kind config parse now wall ok dto st = (r, st')"
    by (cases "trackEvent kind config parse now wall ok dto st") auto
  have v: "\<And>ev. validates (eventData parse wall dto) \<Longrightarrow> session_id ev = session_id dto \<Longrightarrow>
             item_id ev = item_id dto \<Longrightarrow> timestamp ev = timestamp (eventData parse wall dto) \<Longrightarrow>
             validates ev"
    by (simp add: validates_def eventData_def)
  from trackEvent_effect[OF e] have
    "(\<exists>docs. modelOf kind st' = modelOf kind st @ docs \<and> list_all validates docs) \<and>
     (\<forall>k. k \<noteq> kind \<longrightarrow> modelOf k st' = modelOf k st)"
  proof (elim disjE conjE exE)
    fix ev
    assume "modelOf kind st' = modelOf kind st @ [ev]" "validates (eventData parse wall dto)"
      "session_id ev = session_id dto" "item_id ev = item_id dto"
      "timestamp ev = timestamp (eventData parse wall dto)"
      "\<forall>k. k \<noteq> kind \<longrightarrow> cacheOf k st' = cacheOf k st \<and> modelOf k st' = modelOf k st"
    then show ?thesis
      using v by (intro conjI exI[of _ "[ev]"]) auto
  qed (auto intro: exI[of _ "[]"])
  with e show ?thesis
    by simp
qed

lemma cleanOldEvents_keeps:
  "set (modelOf k (snd (cleanOldEvents config setDate now daysToKeep st))) \<subseteq> set (modelOf k st)"
  by (cases k)
    (auto simp: cleanOldEvents_def deleteOldImpressions_def deleteOldClicks_def modelOf_def Let_def
          split: date.splits)

lemma unparsable_not_valid:
  "timestamp dto = Some s \<Longrightarrow> s \<noteq> [] \<Longrightarrow> parse s = InvalidDate \<Longrightarrow>
   \<not> validates (eventData parse wall dto)"
  by (simp add: validates_def eventData_def)

lemma unparsable_rejected:
  assumes "timestamp dto = Some s" "s \<noteq> []" "parse s = InvalidDate"
  shows "\<exists>err. fst (trackEvent kind config parse now wall ok dto st) = Inl err \<and>
           (err = TooRecent \<or> err = AlreadyTracked \<or> err = ValidationError)"
    and "cacheOf kind st (cacheKey dto) = None \<Longrightarrow>
         \<forall>e \<in> set (modelOf kind st). \<not> (session_id e = session_id dto \<and> item_id e = item_id dto) \<Longrightarrow>
         fst (trackEvent kind config parse now wall ok dto st) = Inl ValidationError"
    and "modelOf k (snd (trackEvent kind config parse now wall ok dto st)) = modelOf k st"
proof -
  obtain r st' where e: "trackEvent kind config parse now wall ok dto st = (r, st')"
    by (cases "trackEvent kind config parse now wall ok dto st") auto
  note nv = unparsable_not_valid[where parse = parse and s = s and wall = wall, OF assms]
  from trackEvent_effect[OF e] nv
  show "\<exists>err. fst (trackEvent kind config parse now wall ok dto st) = Inl err \<and>
           (err = TooRecent \<or> err = AlreadyTracked \<or> err = ValidationError)"
    unfolding e by auto
  from trackEvent_effect[OF e] nv
  show "cacheOf kind st (cacheKey dto) = None \<Longrightarrow>
         \<forall>e \<in> set (modelOf kind st). \<not> (session_id e = session_id dto \<and> item_id e = item_id dto) \<Longrightarrow>
         fst (trackEvent kind config parse now wall ok dto st) = Inl ValidationError"
    unfolding e by auto
  from trackEvent_effect[OF e] nv
  show "modelOf k (snd (trackEvent kind config parse now wall ok dto st)) = modelOf k st"
    unfolding e by (cases "k = kind") auto
qed

text \<open>
  C5, as the code has it. The service does not look at the timestamp it builds. A
  single submission whose timestamp is a non-empty string that does not parse is
  refused all the same and stores no event: by the cooldown or the duplicate check when
  one of them applies, and otherwise by the validation of the schema, which does not
  take an Invalid Date (for a key with no cache entry and no stored event it is that
  error). Every event that a single submission or a batch stores has passed that
  validation, and the retention purge only deletes: when the stored events have valid
  timestamps before a single submission, a batch or a purge, they have after it.
\<close>

theorem unparsable_timestamp_rejected:
  "(timestamp dto = Some s \<and> s \<noteq> [] \<and> parse s = InvalidDate \<longrightarrow>
      (\<exists>err. fst (trackEvent kind config parse now wall ok dto st) = Inl err \<and>
         (err = TooRecent \<or> err = AlreadyTracked \<or> err = ValidationError)) \<and>
      (cacheOf kind st (cacheKey dto) = None \<and>
       (\<forall>e \<in> set (modelOf kind st). \<not> (session_id e = session_id dto \<and> item_id e = item_id dto)) \<longrightarrow>
       fst (trackEvent kind config parse now wall ok dto st) = Inl ValidationError) \<and>
      modelOf Impression (snd (trackEvent kind config parse now wall ok dto st)) =
        modelOf Impression st \<and>
      modelOf Click (snd (trackEvent kind config parse now wall ok dto st)) = modelOf Click st) \<and>
   (\<exists>docs. modelOf kind (snd (trackEvent kind config parse now wall ok dto st)) =
             modelOf kind st @ docs \<and> list_all validates docs) \<and>
   (\<exists>docs. modelOf kind (snd (trackBatch kind config parse now wall ok dtos st)) =
             modelOf kind st @ docs \<and> list_all validates docs) \<and>
   ((\<forall>k. \<forall>e \<in> set (modelOf k st). timestamp e \<noteq> InvalidDate) \<longrightarrow>
      (\<forall>k. \<forall>e \<in> set (modelOf k (snd (trackEvent kind config parse now wall ok dto st))).
         timestamp e \<noteq> InvalidDate) \<and>
      (\<forall>k. \<forall>e \<in> set (modelOf k (snd (trackBatch kind config parse now wall ok dtos st))).
         timestamp e \<noteq> InvalidDate) \<and>
      (\<forall>k. \<forall>e \<in> set (modelOf k (snd (cleanOldEvents config setDate now daysToKeep st))).
         timestamp e \<noteq> InvalidDate))"
proof (intro conjI impI)
  assume a: "timestamp dto = Some s \<and> s \<noteq> [] \<and> parse s = InvalidDate"
  then have h: "timestamp dto = Some s" "s \<noteq> []" "parse s = InvalidDate"
    by simp_all
  show "\<exists>err. fst (trackEvent kind config parse now wall ok dto st) = Inl err \<and>
         (err = TooRecent \<or> err = AlreadyTracked \<or> err = ValidationError)"
    using unparsable_rejected(1)[where parse = parse and s = s, OF h] .
  show "modelOf Impression (snd (trackEvent kind config parse now wall ok dto st)) =
        modelOf Impression st"
    using unparsable_rejected(3)[where parse = parse and s = s, OF h] .
  show "modelOf Click (snd (trackEvent kind config parse now wall ok dto st)) = modelOf Click st"
    using unparsable_rejected(3)[where parse = parse and s = s, OF h] .
  assume "cacheOf kind st (cacheKey dto) = None \<and>
       (\<forall>e \<in> set (modelOf kind st). \<not> (session_id e = session_id dto \<and> item_id e = item_id dto))"
  then show "fst (trackEvent kind config parse now wall ok dto st) = Inl ValidationError"
    using unparsable_rejected(2)[where parse = parse and s = s, OF h] by blast
next
  show "\<exists>docs. modelOf kind (snd (trackEvent kind config parse now wall ok dto st)) =
             modelOf kind st @ docs \<and> list_all validates docs"
    using trackEvent_stores_valid by blast
  show "\<exists>docs. modelOf kind (snd (trackBatch kind config parse now wall ok dtos st)) =
             modelOf kind st @ docs \<and> list_all validates docs"
    using trackBatch_stores_valid by blast
next
  assume inv: "\<forall>k. \<forall>e \<in> set (modelOf k st). timestamp e \<noteq> InvalidDate"
  have step: "\<And>st'. (\<exists>docs. modelOf kind st' = modelOf kind st @ docs \<and> list_all validates docs) \<and>
                (\<forall>k. k \<noteq> kind \<longrightarrow> modelOf k st' = modelOf k st) \<Longrightarrow>
              \<forall>k. \<forall>e \<in> set (modelOf k st'). timestamp e \<noteq> InvalidDate"
  proof (intro allI ballI)
    fix st' k e
    assume s: "(\<exists>docs. modelOf kind st' = modelOf kind st @ docs \<and> list_all validates docs) \<and>
                (\<forall>k. k \<noteq> kind \<longrightarrow> modelOf k st' = modelOf k st)"
      and e: "e \<in> set (modelOf k st')"
    show "timestamp e \<noteq> InvalidDate"
    proof (cases "k = kind")
      case True
      from s obtain docs where d: "modelOf kind st' = modelOf kind st @ docs"
        "list_all validates docs"
        by blast
      from e True d(1) have "e \<in> set (modelOf kind st) \<or> e \<in> set docs"
        by auto
      with inv d(2) show ?thesis
        by (auto simp: list_all_iff validates_def)
    next
      case False
      with s e have "e \<in> set (modelOf k st)"
        by simp
      with inv show ?thesis
        by blast
    qed
  qed
  show "\<forall>k. \<forall>e \<in> set (modelOf k (snd (trackEvent kind config parse now wall ok dto st))).
         timestamp e \<noteq> InvalidDate"
    using trackEvent_stores_valid by (rule step)
  show "\<forall>k. \<forall>e \<in> set (modelOf k (snd (trackBatch kind config parse now wall ok dtos st))).
         timestamp e \<noteq> InvalidDate"
    using trackBatch_stores_valid by (rule step)
  show "\<forall>k. \<forall>e \<in> set (modelOf k (snd (cleanOldEvents config setDate now daysToKeep st))).
         timestamp e \<noteq> InvalidDate"
    using inv cleanOldEvents_keeps by blast
qed

theorem unparsable_timestamp_rejected_witness:
  "fst (trackEvent Impression default_config sampleParse 0 0 True
          (sampleDto ''s1'' ''i1'' (Some ''not-a-date'')) empty_state) = Inl ValidationError \<and>
   modelOf Impression (snd (trackEvent Impression default_config sampleParse 0 0 True
          (sampleDto ''s1'' ''i1'' (Some ''not-a-date'')) empty_state)) = [] \<and>
   modelOf Click (snd (trackEvent Impression default_config sampleParse 0 0 True
          (sampleDto ''s1'' ''i1'' (Some ''not-a-date'')) empty_state)) = [] \<and>
   list_all (\<lambda>e. timestamp e \<noteq> InvalidDate)
     (modelOf Impression (snd (trackBatch Impression default_config sampleParse 0 0 True
          [sampleDto ''s1'' ''i1'' (Some ''not-a-date''), sampleDto ''s2'' ''i1'' None]
          empty_state)))"
proof -
  let ?d = "sampleDto ''s1'' ''i1'' (Some ''not-a-date'')"
  have h: "timestamp ?d = Some ''not-a-date'' \<and> ''not-a-date'' \<noteq> [] \<and>
           sampleParse ''not-a-date'' = InvalidDate"
    by (simp add: sampleDto_def sampleParse_def)
  have f: "cacheOf Impression empty_state (cacheKey ?d) = None \<and>
       (\<forall>e \<in> set (modelOf Impression empty_state).
          \<not> (session_id e = session_id ?d \<and> item_id e = item_id ?d))"
    by (simp add: cacheOf_def modelOf_def empty_state_def)
  have i: "\<forall>k. \<forall>e \<in> set (modelOf k empty_state). timestamp e \<noteq> InvalidDate"
    by (simp add: modelOf_def empty_state_def split: EventKind.splits)
  have m: "modelOf Impression empty_state = []" "modelOf Click empty_state = []"
    by (simp_all add: modelOf_def empty_state_def)
  from unparsable_timestamp_rejected[where dto = ?d and s = "''not-a-date''" and parse = sampleParse
      and kind = Impression and config = default_config and now = 0 and wall = 0 and ok = True
      and st = empty_state
      and dtos = "[sampleDto ''s1'' ''i1'' (Some ''not-a-date''), sampleDto ''s2'' ''i1'' None]"]
    h f i m
  show ?thesis
    unfolding list_all_iff by metis
qed

text \<open>
  C5 as stated fails: a timestamp supplied as the empty string does not parse, yet the
  submission is accepted and stored with the time of the clock in its place. And a
  submission with a timestamp that does not parse, of a key within its cooldown, is
  refused as too recent, not as invalid.
\<close>

theorem empty_timestamp_replaced_by_clock:
  "sampleParse [] = InvalidDate \<and>
   trackImpression default_config sampleParse 5000 5000 True
     (sampleDto ''s1'' ''i1'' (Some [])) empty_state =
     (Inr (sampleEvent ''s1'' ''i1'' None (Instant 5000)),
      empty_state\<lparr>impressionCache := (\<lambda>k. None)(''s1_i1'' \<mapsto> 5000),
                  impressionModel := [sampleEvent ''s1'' ''i1'' None (Instant 5000)]\<rparr>) \<and>
   trackImpression default_config sampleParse 6000 6000 True
     (sampleDto ''s1'' ''i1'' (Some ''not-a-date''))
     (empty_state\<lparr>impressionCache := (\<lambda>k. None)(''s1_i1'' \<mapsto> 5000),
                  impressionModel := [sampleEvent ''s1'' ''i1'' None (Instant 5000)]\<rparr>) =
     (Inl TooRecent,
      empty_state\<lparr>impressionCache := (\<lambda>k. None)(''s1_i1'' \<mapsto> 5000),
                  impressionModel := [sampleEvent ''s1'' ''i1'' None (Instant 5000)]\<rparr>)"
  by (simp add: trackImpression_def trackImpression_check_def trackImpression_resume_def
      findImpressionBySessionAndItem_def createImpression_def validates_def eventData_def
      sampleParse_def empty_state_def sampleDto_def sampleEvent_def cacheKey_def Let_def)

section \<open>User statistics\<close>

text \<open>
  C8. \<^verbatim>\<open>getUserAnalytics\<close> computes \<^verbatim>\<open>clickedItems\<close> with the query it uses for
  \<^verbatim>\<open>viewedItems\<close>, on the impression collection: a user with impressions of two items
  and a click on one of them gets \<^verbatim>\<open>clickedItems = 2\<close>.
\<close>

theorem clicked_items_counts_impressions:
  "getUserAnalytics
     (empty_state\<lparr>impressionModel := [sampleEvent ''s1'' ''A'' (Some ''u1'') (Instant 0),
                                       sampleEvent ''s1'' ''B'' (Some ''u1'') (Instant 0)],
                  clickModel := [sampleEvent ''s1'' ''A'' (Some ''u1'') (Instant 10)]\<rparr>)
     ''u1'' None None =
   Inr \<lparr>userId = ''u1'', userImpressions = 2, userClicks = 1, viewedItems = 2, clickedItems = 2\<rparr>"
  by (simp add: getUserAnalytics_def countImpressionsByFilter_def countClicksByFilter_def
      getDistinctItemsByFilter_def buildAnalyticsFilter_def truthy_def matches_def castFails_def
      sampleEvent_def empty_state_def Let_def)

lemma clicked_is_viewed:
  "getUserAnalytics st uid start finish = Inr stats \<Longrightarrow> clickedItems stats = viewedItems stats"
  by (auto simp: getUserAnalytics_def Let_def split: sum.splits)

section \<open>The retention purge\<close>

lemma filter_gte_not_lt:
  "filter (\<lambda>e. date_gte (timestamp e) c) (filter (\<lambda>e. \<not> date_lt (timestamp e) c) xs) =
   filter (\<lambda>e. date_gte (timestamp e) (c::int)) xs"
proof -
  have "\<And>d. date_gte d c \<Longrightarrow> \<not> date_lt d c"
    by (case_tac d) auto
  then show ?thesis
    by (induction xs) auto
qed

lemma cleanOldEvents_invalid_cutoff:
  "setDate now (case daysToKeep of
                  None \<Rightarrow> DATA_RETENTION_DAYS config
                | Some d \<Rightarrow> if d = 0 then DATA_RETENTION_DAYS config else d) = InvalidDate \<Longrightarrow>
   cleanOldEvents config setDate now daysToKeep st = (Inl CastError, st)"
  by (simp add: cleanOldEvents_def deleteOldImpressions_def Let_def)

text \<open>
  C9. After \<^verbatim>\<open>cleanOldEvents\<close> with a cutoff that is a date, for either kind: no stored
  event has a timestamp before the cutoff; the events at or after the cutoff are the ones
  that were there, in their order; the collection is the old one without the events
  before the cutoff; and the two numbers returned are the numbers of events deleted, per
  kind.
\<close>

theorem retention_purge:
  assumes "cleanOldEvents config setDate now daysToKeep st = (r, st')"
    and "setDate now (case daysToKeep of
                        None \<Rightarrow> DATA_RETENTION_DAYS config
                      | Some d \<Rightarrow> if d = 0 then DATA_RETENTION_DAYS config else d) = Instant cutoff"
  shows "(\<forall>e \<in> set (modelOf kind st'). \<not> date_lt (timestamp e) cutoff) \<and>
         filter (\<lambda>e. date_gte (timestamp e) cutoff) (modelOf kind st') =
           filter (\<lambda>e. date_gte (timestamp e) cutoff) (modelOf kind st) \<and>
         modelOf kind st' = filter (\<lambda>e. \<not> date_lt (timestamp e) cutoff) (modelOf kind st) \<and>
         (\<exists>ni nc. r = Inr (ni, nc) \<and>
            ni = length (filter (\<lambda>e. date_lt (timestamp e) cutoff) (impressionModel st)) \<and>
            nc = length (filter (\<lambda>e. date_lt (timestamp e) cutoff) (clickModel st)) \<and>
            length (impressionModel st) = ni + length (impressionModel st') \<and>
            length (clickModel st) = nc + length (clickModel st'))"
proof -
  from assms have st': "st' = st\<lparr>impressionModel := filter (\<lambda>e. \<not> date_lt (timestamp e) cutoff) (impressionModel st),
                                 clickModel := filter (\<lambda>e. \<not> date_lt (timestamp e) cutoff) (clickModel st)\<rparr>"
    and r: "r = Inr (length (filter (\<lambda>e. date_lt (timestamp e) cutoff) (impressionModel st)),
                     length (filter (\<lambda>e. date_lt (timestamp e) cutoff) (clickModel st)))"
    by (auto simp: cleanOldEvents_def deleteOldImpressions_def deleteOldClicks_def Let_def)
  have m: "modelOf kind st' = filter (\<lambda>e. \<not> date_lt (timestamp e) cutoff) (modelOf kind st)"
    by (cases kind) (simp_all add: modelOf_def st')
  have a: "\<forall>e \<in> set (modelOf kind st'). \<not> date_lt (timestamp e) cutoff"
    by (simp add: m)
  have b: "filter (\<lambda>e. date_gte (timestamp e) cutoff) (modelOf kind st') =
           filter (\<lambda>e. date_gte (timestamp e) cutoff) (modelOf kind st)"
    by (simp only: m filter_gte_not_lt)
  have li: "length (impressionModel st) =
            length (filter (\<lambda>e. date_lt (timestamp e) cutoff) (impressionModel st)) +
            length (impressionModel st')"
    using sum_length_filter_compl[of "\<lambda>e. date_lt (timestamp e) cutoff" "impressionModel st"]
    by (simp add: st')
  have lc: "length (clickModel st) =
            length (filter (\<lambda>e. date_lt (timestamp e) cutoff) (clickModel st)) +
            length (clickModel st')"
    using sum_length_filter_compl[of "\<lambda>e. date_lt (timestamp e) cutoff" "clickModel st"]
    by (simp add: st')
  from a b m r li lc show ?thesis
    by blast
qed

theorem retention_purge_witness:
  "cleanOldEvents default_config (\<lambda>now days. Instant (now - days * 86400000)) 8000000000 None
     (empty_state\<lparr>impressionModel := [sampleEvent ''s1'' ''A'' None (Instant 0),
                                       sampleEvent ''s1'' ''B'' None (Instant 7999999999)],
                  clickModel := [sampleEvent ''s1'' ''A'' None (Instant 224000000)]\<rparr>) =
     (Inr (1, 0),
      empty_state\<lparr>impressionModel := [sampleEvent ''s1'' ''B'' None (Instant 7999999999)],
                  clickModel := [sampleEvent ''s1'' ''A'' None (Instant 224000000)]\<rparr>) \<and>
   modelOf Impression
     (empty_state\<lparr>impressionModel := [sampleEvent ''s1'' ''B'' None (Instant 7999999999)],
                  clickModel := [sampleEvent ''s1'' ''A'' None (Instant 224000000)]\<rparr>) =
     filter (\<lambda>e. \<not> date_lt (timestamp e) 224000000)
       [sampleEvent ''s1'' ''A'' None (Instant 0),
        sampleEvent ''s1'' ''B'' None (Instant 7999999999)]"
proof -
  let ?st = "empty_state\<lparr>impressionModel := [sampleEvent ''s1'' ''A'' None (Instant 0),
                                       sampleEvent ''s1'' ''B'' None (Instant 7999999999)],
                  clickModel := [sampleEvent ''s1'' ''A'' None (Instant 224000000)]\<rparr>"
  let ?st' = "empty_state\<lparr>impressionModel := [sampleEvent ''s1'' ''B'' None (Instant 7999999999)],
                  clickModel := [sampleEvent ''s1'' ''A'' None (Instant 224000000)]\<rparr>"
  have h: "cleanOldEvents default_config (\<lambda>now days. Instant (now - days * 86400000)) 8000000000
             None ?st = (Inr (1, 0), ?st')"
    by (simp add: cleanOldEvents_def deleteOldImpressions_def deleteOldClicks_def Let_def
        sampleEvent_def empty_state_def)
  have c: "(\<lambda>now days. Instant (now - days * 86400000)) 8000000000
             (case None of None \<Rightarrow> DATA_RETENTION_DAYS default_config
                | Some d \<Rightarrow> if d = 0 then DATA_RETENTION_DAYS default_config else d) =
           Instant 224000000"
    by simp
  from retention_purge[OF h c, of Impression] h show ?thesis
    by (simp add: modelOf_def empty_state_def)
qed

section \<open>Trending items\<close>













section \<open>The acceptance rule\<close>

















end
